theory Spec2Isabelle
  imports Complex_Main "HOL-Library.AList"
begin

section \<open>Tensors\<close>

text \<open>
  The program (\<^verbatim>\<open>AutoencoderLinearDecoder.py\<close>) works on two-dimensional torch tensors.
  A tensor of shape \<open>(n, m)\<close> is modelled by its list of \<open>n\<close> rows together with the column
  count \<open>m\<close>, which is kept explicitly so that the shapes \<open>(0, m)\<close> are told apart.
  Entries of float tensors are real numbers: rounding is not modelled, and an operation
  whose IEEE result would be \<open>inf\<close> or \<open>nan\<close> (a division by zero) is reported as the
  outcome \<open>NonFinite\<close> instead of a value.
\<close>

record 'a mat =
  ncols :: nat
  rows :: "'a list list"

definition nrows :: "'a mat \<Rightarrow> nat" where
  "nrows W = length (rows W)"

definition wf_mat :: "'a mat \<Rightarrow> bool" where
  "wf_mat W \<longleftrightarrow> (\<forall>r \<in> set (rows W). length r = ncols W)"

definition entry :: "'a mat \<Rightarrow> nat \<Rightarrow> nat \<Rightarrow> 'a" where
  "entry W i j = rows W ! i ! j"

definition col :: "'a mat \<Rightarrow> nat \<Rightarrow> 'a list" where
  "col W c = map (\<lambda>r. r ! c) (rows W)"

definition mk_mat :: "nat \<Rightarrow> nat \<Rightarrow> (nat \<Rightarrow> nat \<Rightarrow> 'a) \<Rightarrow> 'a mat" where
  "mk_mat n m f = \<lparr>ncols = m, rows = map (\<lambda>i. map (f i) [0..<m]) [0..<n]\<rparr>"

text \<open>Elementwise operations on one tensor and on two tensors of the same shape.\<close>

definition mat_map :: "('a \<Rightarrow> 'b) \<Rightarrow> 'a mat \<Rightarrow> 'b mat" where
  "mat_map f W = \<lparr>ncols = ncols W, rows = map (map f) (rows W)\<rparr>"

definition mat_map2 :: "('a \<Rightarrow> 'b \<Rightarrow> 'c) \<Rightarrow> 'a mat \<Rightarrow> 'b mat \<Rightarrow> 'c mat" where
  "mat_map2 f A B = \<lparr>ncols = ncols A, rows = map2 (map2 f) (rows A) (rows B)\<rparr>"

text \<open>
  Broadcasting of a two-dimensional operand to the shape \<open>(n, m)\<close> of the tensor that an
  in-place operation writes to: a dimension of size one is repeated, any other mismatch
  is torch's shape error.
\<close>

definition broadcast_to :: "nat \<Rightarrow> nat \<Rightarrow> 'a mat \<Rightarrow> 'a mat option" where
  "broadcast_to n m M =
     (if (nrows M = n \<or> nrows M = 1) \<and> (ncols M = m \<or> ncols M = 1)
      then Some (mk_mat n m (\<lambda>i j. entry M (if nrows M = 1 then 0 else i)
                                           (if ncols M = 1 then 0 else j)))
      else None)"

text \<open>\<^verbatim>\<open>.float()\<close> of a boolean tensor.\<close>

definition b2r :: "bool \<Rightarrow> real" where
  "b2r b = (if b then 1 else 0)"

text \<open>\<^verbatim>\<open>W.norm(p=2, dim=0)\<close>: the L2 norm of every column.\<close>

definition l2norm :: "real list \<Rightarrow> real" where
  "l2norm xs = sqrt (sum_list (map (\<lambda>x. \<bar>x\<bar>\<^sup>2) xs))"

definition col_norm :: "real mat \<Rightarrow> nat \<Rightarrow> real" where
  "col_norm W c = l2norm (col W c)"

definition norm_dim0 :: "real mat \<Rightarrow> real list" where
  "norm_dim0 W = map (col_norm W) [0..<ncols W]"

text \<open>
  The ways a call can end without a value. \<open>RuntimeError\<close> is what torch raises for
  operands whose shapes do not fit; \<open>NonFinite\<close> marks a division by zero in a tensor
  operation, where torch continues with \<open>inf\<close> or \<open>nan\<close>, values that the real numbers
  do not have. \<open>ValueError\<close>, \<open>KeyError\<close> and \<open>ZeroDivisionError\<close> are the Python
  exceptions that the statements of this file raise; \<open>CollaboratorError\<close> is any
  exception raised inside the code of a collaborator (the data set, the encoder, the
  optimizer).
\<close>

datatype error =
    RuntimeError
  | NonFinite
  | ValueError string
  | KeyError string
  | ZeroDivisionError
  | CollaboratorError

definition safe_div :: "real \<Rightarrow> real \<Rightarrow> real option" where
  "safe_div x y = (if y = 0 then None else Some (x / y))"

section \<open>Proximal operators\<close>

subsection \<open>ProxOperL1\<close>

text \<open>
  \<^verbatim>\<open>self._I = ~I.bool() if I is not None else None\<close>: the stored mask is true exactly where
  the annotation value is zero. The annotation matrix is an integer tensor.
\<close>

record ProxOperL1 =
  l1_I :: "bool mat option"
  l1_alpha :: real
  l1_inplace :: bool

definition ProxOperL1_init :: "real \<Rightarrow> int mat option \<Rightarrow> bool \<Rightarrow> ProxOperL1" where
  "ProxOperL1_init alpha I inplace =
     \<lparr>l1_I = map_option (mat_map (\<lambda>x. \<not> (x \<noteq> 0))) I, l1_alpha = alpha, l1_inplace = inplace\<rparr>"

text \<open>
  The three in-place updates of \<^verbatim>\<open>__call__\<close>, in the order of the source; the last one
  reads the tensor as the first two left it.
\<close>

definition l1_update :: "real \<Rightarrow> bool mat \<Rightarrow> bool mat \<Rightarrow> bool mat \<Rightarrow> real mat \<Rightarrow> real mat" where
  "l1_update alpha W_geq_alpha W_leq_neg_alpha W_cond_joint W =
     (let W1 = mat_map2 (\<lambda>w b. w - b2r b * alpha) W W_geq_alpha;
          W2 = mat_map2 (\<lambda>w b. w + b2r b * alpha) W1 W_leq_neg_alpha
      in mat_map2 (\<lambda>w b. w - b2r b * w) W2 W_cond_joint)"

text \<open>
  The value that \<^verbatim>\<open>__call__\<close> returns. With \<^verbatim>\<open>inplace\<close> the returned tensor is the
  argument itself, overwritten; without it the argument is cloned first and keeps its
  entries. The returned entries are the same in both cases.
\<close>

definition ProxOperL1_call :: "ProxOperL1 \<Rightarrow> real mat \<Rightarrow> error + real mat" where
  "ProxOperL1_call p W =
     (let W_geq_alpha = mat_map (\<lambda>w. w \<ge> l1_alpha p) W;
          W_leq_neg_alpha = mat_map (\<lambda>w. w \<le> - l1_alpha p) W;
          W_cond_joint = mat_map2 (\<lambda>a b. \<not> a \<and> \<not> b) W_geq_alpha W_leq_neg_alpha
      in case l1_I p of
           None \<Rightarrow> Inr (l1_update (l1_alpha p) W_geq_alpha W_leq_neg_alpha W_cond_joint W)
         | Some I \<Rightarrow>
             (case broadcast_to (nrows W) (ncols W) I of
                None \<Rightarrow> Inl RuntimeError
              | Some I' \<Rightarrow>
                  Inr (l1_update (l1_alpha p)
                         (mat_map2 (\<and>) W_geq_alpha I')
                         (mat_map2 (\<and>) W_leq_neg_alpha I')
                         (mat_map2 (\<and>) W_cond_joint I') W)))"

subsection \<open>ProxOperGroupL2\<close>

text \<open>
  \<^verbatim>\<open>_group_coeff\<close> is the scalar \<^verbatim>\<open>alpha\<close>, or with \<^verbatim>\<open>omega\<close> the flattened product
  \<^verbatim>\<open>(omega*alpha).view(-1)\<close>; \<open>omega\<close> is given by its flattened entries.
\<close>

datatype group_coeff = Scalar real | PerGroup "real list"

record ProxOperGroupL2 =
  gl2_group_coeff :: group_coeff
  gl2_inplace :: bool

definition ProxOperGroupL2_init :: "real \<Rightarrow> real list option \<Rightarrow> bool \<Rightarrow> ProxOperGroupL2" where
  "ProxOperGroupL2_init alpha omega inplace =
     \<lparr>gl2_group_coeff = (case omega of None \<Rightarrow> Scalar alpha
                                      | Some om \<Rightarrow> PerGroup (map (\<lambda>x. x * alpha) om)),
      gl2_inplace = inplace\<rparr>"

text \<open>
  The coefficient as broadcast against the vector of the \<open>m\<close> column norms. A vector of
  another length than \<open>m\<close> or one makes one of the operations of \<^verbatim>\<open>__call__\<close> fail.
\<close>

definition expand_coeff :: "group_coeff \<Rightarrow> nat \<Rightarrow> real list option" where
  "expand_coeff g m =
     (case g of
        Scalar a \<Rightarrow> Some (replicate m a)
      | PerGroup v \<Rightarrow>
          if length v = m then Some v
          else if length v = 1 then Some (replicate m (v ! 0))
          else None)"

text \<open>
  Elementwise division of two vectors of the same length, and the two broadcasts of a
  vector of \<open>ncols W\<close> entries against the rows of \<open>W\<close>.
\<close>

definition div_vec :: "real list \<Rightarrow> real list \<Rightarrow> real list option" where
  "div_vec xs ys = those (map2 safe_div xs ys)"

definition div_rowvec :: "real mat \<Rightarrow> real list \<Rightarrow> real mat option" where
  "div_rowvec W v =
     map_option (\<lambda>Q. \<lparr>ncols = ncols W, rows = Q\<rparr>) (those (map (\<lambda>r. div_vec r v) (rows W)))"

definition mul_rowvec :: "real mat \<Rightarrow> real list \<Rightarrow> real mat" where
  "mul_rowvec W v = \<lparr>ncols = ncols W, rows = map (\<lambda>r. map2 (*) r v) (rows W)\<rparr>"

definition ProxOperGroupL2_call :: "ProxOperGroupL2 \<Rightarrow> real mat \<Rightarrow> error + real mat" where
  "ProxOperGroupL2_call p W =
     (case expand_coeff (gl2_group_coeff p) (ncols W) of
        None \<Rightarrow> Inl RuntimeError
      | Some g \<Rightarrow>
          (let norm_vect = norm_dim0 W;
               norm_g_gr_vect = map2 (\<lambda>n c. n > c) norm_vect g
           in case div_vec norm_vect g of
                None \<Rightarrow> Inl NonFinite
              | Some scaled \<Rightarrow>
                  (let scaled_norm_vector = map (\<lambda>s. s + b2r (\<not> (s > 0))) scaled
                   in case div_rowvec W scaled_norm_vector of
                        None \<Rightarrow> Inl NonFinite
                      | Some Q \<Rightarrow>
                          Inr (mul_rowvec (mat_map2 (-) W Q) (map b2r norm_g_gr_vect)))))"

text \<open>
  What the statements of \<^verbatim>\<open>__call__\<close> leave of an entry \<open>w\<close> in a column of norm \<open>N\<close> with
  coefficient \<open>g\<close>, when no division fails.
\<close>

definition gl2_entry :: "real \<Rightarrow> real \<Rightarrow> real \<Rightarrow> real" where
  "gl2_entry N g w = (w - w / (N / g + b2r (\<not> (N / g > 0)))) * b2r (N > g)"

section \<open>CompositeLinearDecoder\<close>

definition TERMS_KEYS :: "string list" where
  "TERMS_KEYS = [''annotated'', ''sparse'', ''dense'']"

text \<open>
  \<^verbatim>\<open>weight_dict\<close> is an \<^verbatim>\<open>nn.ParameterDict\<close>: the blocks by name, in insertion order.
  It is the whole state of the decoder.
\<close>

type_synonym weight_dict = "(string \<times> real mat) list"

text \<open>
  The constructor. \<open>randn k i j\<close> stands for the sample that \<^verbatim>\<open>torch.randn\<close> draws for entry
  \<open>(i, j)\<close> of block \<open>k\<close>. \<^verbatim>\<open>filter(None, sizes)\<close> drops the sizes that are unset or zero.
\<close>

definition CompositeLinearDecoder_init ::
  "nat \<Rightarrow> nat option \<Rightarrow> nat option \<Rightarrow> nat option \<Rightarrow> (string \<Rightarrow> nat \<Rightarrow> nat \<Rightarrow> real)
     \<Rightarrow> error + weight_dict" where
  "CompositeLinearDecoder_init n_vars n_ann n_sparse n_dense randn =
     (let sizes = [n_ann, n_sparse, n_dense]
      in if sizes = [None, None, None]
         then Inl (ValueError ''At least one type of terms should be chosen'')
         else
           (let N = sqrt (real (sum_list (concat (map (\<lambda>s. case s of None \<Rightarrow> []
                              | Some n \<Rightarrow> if n = 0 then [] else [n]) sizes))))
            in Inr (concat (map (\<lambda>(k, s). case s of None \<Rightarrow> []
                              | Some n \<Rightarrow> [(k, mk_mat n_vars n (\<lambda>i j. randn k i j / N))])
                            (zip TERMS_KEYS sizes)))))"

text \<open>\<^verbatim>\<open>torch.cat(vals, dim=1)\<close>, \<^verbatim>\<open>.t()\<close> and \<^verbatim>\<open>matmul\<close> of two-dimensional tensors.\<close>

definition hcat :: "'a mat list \<Rightarrow> 'a mat option" where
  "hcat Ws =
     (case Ws of
        [] \<Rightarrow> None
      | W # _ \<Rightarrow>
          if \<forall>V \<in> set Ws. nrows V = nrows W
          then Some \<lparr>ncols = sum_list (map ncols Ws),
                     rows = map (\<lambda>i. concat (map (\<lambda>V. rows V ! i) Ws)) [0..<nrows W]\<rparr>
          else None)"

definition transpose_mat :: "'a mat \<Rightarrow> 'a mat" where
  "transpose_mat W = mk_mat (ncols W) (nrows W) (\<lambda>i j. entry W j i)"

definition matmul :: "real mat \<Rightarrow> real mat \<Rightarrow> error + real mat" where
  "matmul A B =
     (if ncols A = nrows B
      then Inr (mk_mat (nrows A) (ncols B)
                  (\<lambda>i j. sum_list (map (\<lambda>k. entry A i k * entry B k j) [0..<ncols A])))
      else Inl RuntimeError)"

text \<open>The two branches of \<^verbatim>\<open>forward\<close>, and \<^verbatim>\<open>forward\<close> itself.\<close>

definition forward_single :: "real mat list \<Rightarrow> real mat \<Rightarrow> error + real mat" where
  "forward_single vals x = matmul x (transpose_mat (vals ! 0))"

definition forward_cat :: "real mat list \<Rightarrow> real mat \<Rightarrow> error + real mat" where
  "forward_cat vals x =
     (case hcat vals of None \<Rightarrow> Inl RuntimeError | Some W \<Rightarrow> matmul x (transpose_mat W))"

definition forward :: "weight_dict \<Rightarrow> real mat \<Rightarrow> error + real mat" where
  "forward wd x =
     (let vals = map snd wd
      in if length vals = 1 then forward_single vals x else forward_cat vals x)"

text \<open>
  \<^verbatim>\<open>n_inactive_terms\<close>: the loop carries the decoder's blocks, which no statement of the
  body writes to, and the running sum \<open>n\<close>; \<^verbatim>\<open>int(n)\<close> truncates towards zero.
\<close>

definition py_int :: "real \<Rightarrow> int" where
  "py_int r = (if r < 0 then \<lceil>r\<rceil> else \<lfloor>r\<rfloor>)"

fun n_inactive_terms_loop :: "real mat list \<Rightarrow> weight_dict \<times> real \<Rightarrow> weight_dict \<times> real" where
  "n_inactive_terms_loop [] (wd, n) = (wd, n)"
| "n_inactive_terms_loop (v # vs) (wd, n) =
     n_inactive_terms_loop vs (wd, n + sum_list (map (\<lambda>x. b2r (\<not> (x > 0))) (norm_dim0 v)))"

definition n_inactive_terms :: "weight_dict \<Rightarrow> weight_dict \<times> int" where
  "n_inactive_terms wd =
     (case n_inactive_terms_loop (map snd wd) (wd, 0) of (wd', n) \<Rightarrow> (wd', py_int n))"

section \<open>The operators of the blocks\<close>

type_synonym prox_op = "real mat \<Rightarrow> error + real mat"

text \<open>\<open>p_gr(p_l1(W))\<close>: an exception of the inner call leaves the outer one uncalled.\<close>

definition then_op :: "prox_op \<Rightarrow> prox_op \<Rightarrow> prox_op" where
  "then_op p q W = (case p W of Inl e \<Rightarrow> Inl e | Inr W' \<Rightarrow> q W')"

text \<open>
  \<^verbatim>\<open>get_prox_operators\<close>. Both operator classes are built with their default
  \<^verbatim>\<open>inplace=True\<close>, so each operator overwrites the tensor it is given and returns it.
\<close>

definition get_prox_operators ::
  "int mat option \<Rightarrow> real option \<Rightarrow> real option \<Rightarrow> real option \<Rightarrow> (string \<rightharpoonup> prox_op)" where
  "get_prox_operators I lambda1 lambda2 lambda3 =
     (let p_gr = (case lambda3 of
                    Some l3 \<Rightarrow> ProxOperGroupL2_call (ProxOperGroupL2_init l3 None True)
                  | None \<Rightarrow> (\<lambda>W. Inr W));
          ops_dct = Map.empty;
          ops_dct = (case lambda1 of
                       Some l1 \<Rightarrow> ops_dct(TERMS_KEYS ! 0 \<mapsto>
                                    then_op (ProxOperL1_call (ProxOperL1_init l1 I True)) p_gr)
                     | None \<Rightarrow> ops_dct);
          ops_dct = (case lambda2 of
                       Some l2 \<Rightarrow> ops_dct(TERMS_KEYS ! 1 \<mapsto>
                                    then_op (ProxOperL1_call (ProxOperL1_init l2 None True)) p_gr)
                     | None \<Rightarrow> ops_dct)
      in ops_dct(TERMS_KEYS ! 2 \<mapsto> p_gr))"

section \<open>The training loop\<close>

text \<open>
  What the loop does that can be observed: the batches it draws with \<^verbatim>\<open>chunk_X\<close> and the
  lines it prints, each with the epoch (and step) it belongs to. The loss values of the
  two loss lines come from the encoder and the data and are left out. The share is
  \<open>None\<close> where the division of the two counts is a division by zero. The last two
  events are the lines of the diagnostics when the weights hold entries that are not
  real numbers: the lines are printed, the numbers on them are outside the model.
\<close>

datatype event =
    BatchDrawn nat nat
  | BatchLossLine nat nat
  | EpochLossLine nat
  | TermsLine nat int
  | ShareLine nat "real option"
  | TermsLineNonFinite nat
  | ShareLineNonFinite nat

text \<open>
  Drawing the batch, the forward pass, the loss, its gradients and the optimizer's update
  are code of the collaborators (the data set, the encoder, the optimizer), taken as a
  parameter. \<open>upd epoch step\<close> is \<open>None\<close> when one of them raises in this step (the encoder's
  batch normalisation does for a batch of one row); otherwise it gives, from the weights
  before the step, the entry \<open>(i, j)\<close> that the update leaves in block \<open>k\<close>. The update writes
  into the parameters in place, so names and shapes stay. Whether a collaborator raises
  is taken not to depend on the values of the weights, since torch's arithmetic does not
  raise on values.
\<close>

type_synonym optimizer = "nat \<Rightarrow> nat \<Rightarrow> (weight_dict \<Rightarrow> string \<Rightarrow> nat \<Rightarrow> nat \<Rightarrow> real) option"

definition optimizer_step :: "optimizer \<Rightarrow> nat \<Rightarrow> nat \<Rightarrow> weight_dict \<Rightarrow> error + weight_dict" where
  "optimizer_step upd epoch step wd =
     (case upd epoch step of
        None \<Rightarrow> Inl CollaboratorError
      | Some f \<Rightarrow> Inr (map (\<lambda>(k, W). (k, mk_mat (nrows W) (ncols W) (f wd k))) wd))"

text \<open>
  \<^verbatim>\<open>for k in term_keys: prox_ops[k](autoencoder.decoder.weight_dict[k].data)\<close>

  A division by zero inside an operator raises nothing: the block then holds \<open>inf\<close> or \<open>nan\<close>
  and the loop goes on. The flag \<open>nf\<close> records that this has happened. From then on the
  dictionary of the model stands for the names and the shapes of the blocks only, which
  is all that a later exception can depend on (an operator raises for shapes that do
  not fit, never for a value).
\<close>

fun apply_prox_ops ::
  "(string \<rightharpoonup> prox_op) \<Rightarrow> string list \<Rightarrow> weight_dict \<times> bool \<Rightarrow> error + weight_dict \<times> bool" where
  "apply_prox_ops prox_ops [] (wd, nf) = Inr (wd, nf)"
| "apply_prox_ops prox_ops (k # ks) (wd, nf) =
     (case prox_ops k of
        None \<Rightarrow> Inl (KeyError k)
      | Some p \<Rightarrow>
          (case map_of wd k of
             None \<Rightarrow> Inl (KeyError k)
           | Some W \<Rightarrow>
               (case p W of
                  Inl e \<Rightarrow>
                    if e = NonFinite then apply_prox_ops prox_ops ks (wd, True) else Inl e
                | Inr W' \<Rightarrow> apply_prox_ops prox_ops ks (AList.update k W' wd, nf))))"

text \<open>The batches of one epoch: the body of the inner \<^verbatim>\<open>for\<close> loop, for the steps given.\<close>

fun run_steps_nf ::
  "optimizer \<Rightarrow> (string \<rightharpoonup> prox_op) \<Rightarrow> nat \<Rightarrow> nat list \<Rightarrow> event list \<times> weight_dict \<times> bool
     \<Rightarrow> event list \<times> (error + weight_dict \<times> bool)" where
  "run_steps_nf upd prox_ops epoch [] (evs, wd, nf) = (evs, Inr (wd, nf))"
| "run_steps_nf upd prox_ops epoch (step # steps) (evs, wd, nf) =
     (let evs1 = evs @ [BatchDrawn epoch step]
      in case optimizer_step upd epoch step wd of
           Inl e \<Rightarrow> (evs1, Inl e)
         | Inr wd0 \<Rightarrow>
             (case apply_prox_ops prox_ops (map fst wd) (wd0, nf) of
                Inl e \<Rightarrow> (evs1, Inl e)
              | Inr (wd', nf') \<Rightarrow>
                  run_steps_nf upd prox_ops epoch steps
                    (if step mod 100 = 0 then evs1 @ [BatchLossLine epoch step] else evs1,
                     wd', nf')))"

text \<open>
  The two diagnostics at the end of an epoch (the last five lines of the loop body):
  the number of deactivated terms, then the share, whose numerator counts the entries
  of the block \<^verbatim>\<open>weight_dict[TERMS_KEYS[0]]\<close> that are not greater than zero in absolute
  value. \<open>n_inact_genes\<close> is \<^verbatim>\<open>(1-adata.varm['I']).sum()\<close>.
\<close>

definition n_inact_genes_of :: "int mat \<Rightarrow> int" where
  "n_inact_genes_of I = sum_list (map (\<lambda>r. sum_list (map (\<lambda>x. 1 - x) r)) (rows I))"

definition n_deact_genes_of :: "real mat \<Rightarrow> real" where
  "n_deact_genes_of W = sum_list (map (\<lambda>r. sum_list (map (\<lambda>w. b2r (\<not> (\<bar>w\<bar> > 0))) r)) (rows W))"

definition epoch_diagnostics ::
  "int \<Rightarrow> nat \<Rightarrow> weight_dict \<Rightarrow> event list \<Rightarrow> event list \<times> (error + weight_dict)" where
  "epoch_diagnostics n_inact_genes epoch wd evs =
     (case n_inactive_terms wd of
        (wd1, n_deact_terms) \<Rightarrow>
          (let evs1 = evs @ [TermsLine epoch n_deact_terms]
           in case map_of wd1 (TERMS_KEYS ! 0) of
                None \<Rightarrow> (evs1, Inl (KeyError (TERMS_KEYS ! 0)))
              | Some W \<Rightarrow>
                  (evs1 @ [ShareLine epoch (safe_div (n_deact_genes_of W) (real_of_int n_inact_genes))],
                   Inr wd1)))"

text \<open>
  The same statements when the weights hold entries that are not real numbers: the
  norms, the comparisons and the sums raise nothing, the lookup of the block is the same.
\<close>

definition epoch_diagnostics_nf ::
  "int \<Rightarrow> nat \<Rightarrow> weight_dict \<times> bool \<Rightarrow> event list \<Rightarrow> event list \<times> (error + weight_dict \<times> bool)" where
  "epoch_diagnostics_nf n_inact_genes epoch wdnf evs =
     (case wdnf of
        (wd, nf) \<Rightarrow>
          if nf
          then (let evs1 = evs @ [TermsLineNonFinite epoch]
                in case map_of wd (TERMS_KEYS ! 0) of
                     None \<Rightarrow> (evs1, Inl (KeyError (TERMS_KEYS ! 0)))
                   | Some W \<Rightarrow> (evs1 @ [ShareLineNonFinite epoch], Inr (wd, True)))
          else (case epoch_diagnostics n_inact_genes epoch wd evs of
                  (evs1, Inl e) \<Rightarrow> (evs1, Inl e)
                | (evs1, Inr wd1) \<Rightarrow> (evs1, Inr (wd1, False))))"

text \<open>
  The outer loop. \<^verbatim>\<open>int(adata.n_obs/batch_size)\<close> raises for a batch size of zero; the
  batch size is not negative here (see \<open>train_autoencoder\<close>), and \<open>n_obs\<close> is a count.
\<close>

fun run_epochs_nf ::
  "optimizer \<Rightarrow> (string \<rightharpoonup> prox_op) \<Rightarrow> int \<Rightarrow> nat \<Rightarrow> int \<Rightarrow> nat list
     \<Rightarrow> event list \<times> weight_dict \<times> bool \<Rightarrow> event list \<times> (error + weight_dict \<times> bool)" where
  "run_epochs_nf upd prox_ops n_inact_genes n_obs batch_size [] (evs, wd, nf) = (evs, Inr (wd, nf))"
| "run_epochs_nf upd prox_ops n_inact_genes n_obs batch_size (epoch # epochs) (evs, wd, nf) =
     (if batch_size = 0 then (evs, Inl ZeroDivisionError)
      else
        (case run_steps_nf upd prox_ops epoch [0..<nat (int n_obs div batch_size)] (evs, wd, nf) of
           (evs1, Inl e) \<Rightarrow> (evs1, Inl e)
         | (evs1, Inr wdnf1) \<Rightarrow>
             (case epoch_diagnostics_nf n_inact_genes epoch wdnf1 (evs1 @ [EpochLossLine epoch]) of
                (evs2, Inl e) \<Rightarrow> (evs2, Inl e)
              | (evs2, Inr (wd2, nf2)) \<Rightarrow>
                  run_epochs_nf upd prox_ops n_inact_genes n_obs batch_size epochs (evs2, wd2, nf2))))"

text \<open>
  The two loops started on weights that are real numbers. They return the weights when
  these are still real numbers at the end of the loop. The result \<open>Inl NonFinite\<close> is not
  an exception: the loop has run to its end, and the weights hold \<open>inf\<close> or \<open>nan\<close>.
\<close>

definition finite_view ::
  "event list \<times> (error + weight_dict \<times> bool) \<Rightarrow> event list \<times> (error + weight_dict)" where
  "finite_view r =
     (case r of
        (evs, Inl e) \<Rightarrow> (evs, Inl e)
      | (evs, Inr (wd, nf)) \<Rightarrow> (evs, if nf then Inl NonFinite else Inr wd))"

definition run_steps ::
  "optimizer \<Rightarrow> (string \<rightharpoonup> prox_op) \<Rightarrow> nat \<Rightarrow> nat list \<Rightarrow> event list \<times> weight_dict
     \<Rightarrow> event list \<times> (error + weight_dict)" where
  "run_steps upd prox_ops epoch steps ew =
     (case ew of (evs, wd) \<Rightarrow> finite_view (run_steps_nf upd prox_ops epoch steps (evs, wd, False)))"

definition run_epochs ::
  "optimizer \<Rightarrow> (string \<rightharpoonup> prox_op) \<Rightarrow> int \<Rightarrow> nat \<Rightarrow> int \<Rightarrow> nat list \<Rightarrow> event list \<times> weight_dict
     \<Rightarrow> event list \<times> (error + weight_dict)" where
  "run_epochs upd prox_ops n_inact_genes n_obs batch_size epochs ew =
     (case ew of (evs, wd) \<Rightarrow>
        finite_view (run_epochs_nf upd prox_ops n_inact_genes n_obs batch_size epochs (evs, wd, False)))"

text \<open>
  \<^verbatim>\<open>train_autoencoder\<close>. \<open>I\<close> is \<^verbatim>\<open>adata.varm['I']\<close>, \<open>wd\<close> the decoder's weight dictionary when
  the call starts. The result is the log and either the exception that ended the call
  or the weights at its end (\<open>Inl NonFinite\<close> for a call that returned with weights that
  are not real numbers). \<^verbatim>\<open>torch.zeros((batch_size, n_terms))\<close> raises for a negative
  batch size, after the validation and before the first epoch.
\<close>

definition train_autoencoder ::
  "int mat \<Rightarrow> nat \<Rightarrow> weight_dict \<Rightarrow> optimizer \<Rightarrow> int \<Rightarrow> int
     \<Rightarrow> real option \<Rightarrow> real option \<Rightarrow> real option \<Rightarrow> event list \<times> (error + weight_dict)" where
  "train_autoencoder I n_obs wd upd batch_size num_epochs lambda1 lambda2 lambda3 =
     (let n_inact_genes = n_inact_genes_of I;
          prox_ops = get_prox_operators (Some I) lambda1 lambda2 lambda3;
          term_keys = map fst wd
      in case find (\<lambda>k. k \<notin> dom prox_ops) term_keys of
           Some k \<Rightarrow> ([], Inl (ValueError (''Provide regularization coefficient for '' @ k)))
         | None \<Rightarrow>
             if batch_size < 0 then ([], Inl RuntimeError)
             else run_epochs upd prox_ops n_inact_genes n_obs batch_size
                    [0..<nat num_epochs] ([], wd))"

text \<open>
  The events of the batches of one epoch that all succeed: each step draws its batch, and
  every hundredth step prints the batch loss.
\<close>

definition batch_events :: "nat \<Rightarrow> nat list \<Rightarrow> event list" where
  "batch_events epoch steps =
     concat (map (\<lambda>step. BatchDrawn epoch step
                          # (if step mod 100 = 0 then [BatchLossLine epoch step] else [])) steps)"

text \<open>
  Collaborators that never raise, with an optimizer that leaves every entry as it is (a
  learning rate of zero).
\<close>

definition lr0_optimizer :: optimizer where
  "lr0_optimizer epoch step =
     Some (\<lambda>wd k i j. case map_of wd k of Some W \<Rightarrow> entry W i j | None \<Rightarrow> 0)"

text \<open>A source of samples for the constructor that returns the same value everywhere.\<close>

definition const_randn :: "real \<Rightarrow> string \<Rightarrow> nat \<Rightarrow> nat \<Rightarrow> real" where
  "const_randn c k i j = c"

section \<open>The quantities the specification names\<close>

text \<open>
  The share as the specification words it: the number of genes (rows) whose whole row of
  the annotated block is zero, over the number of genes whose row of the annotation
  matrix sums to zero.
\<close>

definition spec_share :: "real mat \<Rightarrow> int mat \<Rightarrow> real option" where
  "spec_share W I =
     safe_div (real (length (filter (list_all (\<lambda>w. w = 0)) (rows W))))
              (real (length (filter (\<lambda>r. sum_list r = 0) (rows I))))"

text \<open>
  The concatenation of the active blocks in the fixed order annotated, sparse, dense,
  whatever the order of the dictionary.
\<close>

definition cat_fixed_order :: "weight_dict \<Rightarrow> real mat option" where
  "cat_fixed_order wd = hcat (List.map_filter (map_of wd) TERMS_KEYS)"

section \<open>Facts about tensors\<close>

lemma nrows_mk_mat [simp]: "nrows (mk_mat n m f) = n"
  by (simp add: nrows_def mk_mat_def)

lemma ncols_mk_mat [simp]: "ncols (mk_mat n m f) = m"
  by (simp add: mk_mat_def)

lemma wf_mk_mat [simp]: "wf_mat (mk_mat n m f)"
  by (auto simp: wf_mat_def mk_mat_def)

lemma entry_mk_mat [simp]: "i < n \<Longrightarrow> j < m \<Longrightarrow> entry (mk_mat n m f) i j = f i j"
  by (simp add: entry_def mk_mat_def)

lemma col_mk_mat: "c < m \<Longrightarrow> col (mk_mat n m f) c = map (\<lambda>i. f i c) [0..<n]"
  by (simp add: col_def mk_mat_def)

lemma mk_mat_cong: "(\<And>i j. i < n \<Longrightarrow> j < m \<Longrightarrow> f i j = g i j) \<Longrightarrow> mk_mat n m f = mk_mat n m g"
  by (simp add: mk_mat_def)

lemma wf_mat_mk_mat: "wf_mat W \<Longrightarrow> W = mk_mat (nrows W) (ncols W) (entry W)"
proof -
  assume wf: "wf_mat W"
  have "rows W = map (\<lambda>i. map (entry W i) [0..<ncols W]) [0..<nrows W]"
  proof (rule nth_equalityI)
    show "length (rows W) = length (map (\<lambda>i. map (entry W i) [0..<ncols W]) [0..<nrows W])"
      by (simp add: nrows_def)
  next
    fix i assume i: "i < length (rows W)"
    then have "length (rows W ! i) = ncols W"
      using wf by (simp add: wf_mat_def)
    then have "rows W ! i = map (entry W i) [0..<ncols W]"
      by (intro nth_equalityI) (simp_all add: entry_def)
    then show "rows W ! i = map (\<lambda>i. map (entry W i) [0..<ncols W]) [0..<nrows W] ! i"
      using i by (simp add: nrows_def)
  qed
  then show ?thesis
    by (simp add: mk_mat_def)
qed

lemma mat_map_mk_mat: "mat_map f (mk_mat n m a) = mk_mat n m (\<lambda>i j. f (a i j))"
  by (simp add: mat_map_def mk_mat_def comp_def)

lemma mat_map2_mk_mat:
  "mat_map2 f (mk_mat n m a) (mk_mat n m b) = mk_mat n m (\<lambda>i j. f (a i j) (b i j))"
  by (simp add: mat_map2_def mk_mat_def map2_map_map)

lemma mat_map2_same:
  "mat_map2 f (mat_map g W) (mat_map h W) = mat_map (\<lambda>x. f (g x) (h x)) W"
  by (simp add: mat_map2_def mat_map_def map2_map_map)

lemma mat_map_id: "mat_map (\<lambda>x. x) W = W"
  by (simp add: mat_map_def)

lemma mat_map2_left: "mat_map2 f W (mat_map g W) = mat_map (\<lambda>x. f x (g x)) W"
  using mat_map2_same [of f "\<lambda>x. x" W g] by (simp add: mat_map_id)

lemma broadcast_to_same: "broadcast_to n m (mk_mat n m b) = Some (mk_mat n m b)"
  by (auto simp: broadcast_to_def intro!: mk_mat_cong)

section \<open>ProxOperL1 is soft-thresholding\<close>

lemma soft_threshold_cases:
  "0 < alpha \<Longrightarrow>
   (w - b2r (alpha \<le> w) * alpha + b2r (w \<le> - alpha) * alpha)
     - b2r (\<not> alpha \<le> w \<and> \<not> w \<le> - alpha)
         * (w - b2r (alpha \<le> w) * alpha + b2r (w \<le> - alpha) * alpha)
   = sgn w * max (\<bar>w\<bar> - alpha) 0"
  by (auto simp: b2r_def sgn_real_def max_def)

lemma ProxOperL1_call_no_mask:
  "0 < alpha \<Longrightarrow>
   ProxOperL1_call (ProxOperL1_init alpha None inplace) W
     = Inr (mat_map (\<lambda>w. sgn w * max (\<bar>w\<bar> - alpha) 0) W)"
  by (simp add: ProxOperL1_call_def ProxOperL1_init_def l1_update_def Let_def
      mat_map2_same mat_map2_left soft_threshold_cases)

lemma ProxOperL1_call_mask:
  "0 < alpha \<Longrightarrow>
   ProxOperL1_call (ProxOperL1_init alpha (Some (mk_mat n m a)) inplace) (mk_mat n m w)
     = Inr (mk_mat n m (\<lambda>i j. if a i j \<noteq> 0 then w i j
                               else sgn (w i j) * max (\<bar>w i j\<bar> - alpha) 0))"
  by (auto simp add: ProxOperL1_call_def ProxOperL1_init_def l1_update_def Let_def
      mat_map_mk_mat mat_map2_mk_mat broadcast_to_same b2r_def sgn_real_def max_def
      intro!: mk_mat_cong)

text \<open>
  Claim C1. For a threshold \<open>alpha > 0\<close>, \<^verbatim>\<open>ProxOperL1(alpha)\<close> without a mask returns, for
  every tensor \<open>W\<close>, the tensor whose entries are \<open>sign(w) * max(|w| - alpha, 0)\<close>. Built with
  an annotation matrix \<open>I\<close> of the shape of \<open>W\<close>, it returns a tensor of that shape in which
  every entry with annotation value 1 is the entry of \<open>W\<close>, whatever its sign or size,
  and every entry with annotation value 0 is soft-thresholded by the same formula.
\<close>

theorem ProxOperL1_soft_thresholding:
  "0 < alpha \<Longrightarrow>
   ProxOperL1_call (ProxOperL1_init alpha None inplace) W
     = Inr (mat_map (\<lambda>w. sgn w * max (\<bar>w\<bar> - alpha) 0) W)
   \<and> (wf_mat W \<and> wf_mat I \<and> nrows I = nrows W \<and> ncols I = ncols W \<longrightarrow>
        (\<exists>R. ProxOperL1_call (ProxOperL1_init alpha (Some I) inplace) W = Inr R
           \<and> nrows R = nrows W \<and> ncols R = ncols W \<and> wf_mat R
           \<and> (\<forall>i<nrows W. \<forall>j<ncols W.
                 (entry I i j = 1 \<longrightarrow> entry R i j = entry W i j)
               \<and> (entry I i j = 0 \<longrightarrow>
                    entry R i j = sgn (entry W i j) * max (\<bar>entry W i j\<bar> - alpha) 0))))"
proof (intro conjI impI)
  assume pos: "0 < alpha"
  then show "ProxOperL1_call (ProxOperL1_init alpha None inplace) W
     = Inr (mat_map (\<lambda>w. sgn w * max (\<bar>w\<bar> - alpha) 0) W)"
    by (rule ProxOperL1_call_no_mask)
next
  assume pos: "0 < alpha"
    and shp: "wf_mat W \<and> wf_mat I \<and> nrows I = nrows W \<and> ncols I = ncols W"
  let ?n = "nrows W" and ?m = "ncols W"
  let ?R = "mk_mat ?n ?m (\<lambda>i j. if entry I i j \<noteq> 0 then entry W i j
                else sgn (entry W i j) * max (\<bar>entry W i j\<bar> - alpha) 0)"
  have W: "W = mk_mat ?n ?m (entry W)" and I: "I = mk_mat ?n ?m (entry I)"
    using shp wf_mat_mk_mat [of W] wf_mat_mk_mat [of I] by simp_all
  have "ProxOperL1_call (ProxOperL1_init alpha (Some (mk_mat ?n ?m (entry I))) inplace)
          (mk_mat ?n ?m (entry W)) = Inr ?R"
    using pos by (rule ProxOperL1_call_mask)
  then have call: "ProxOperL1_call (ProxOperL1_init alpha (Some I) inplace) W = Inr ?R"
    using W I by simp
  have "\<forall>i<?n. \<forall>j<?m.
          (entry I i j = 1 \<longrightarrow> entry ?R i j = entry W i j)
        \<and> (entry I i j = 0 \<longrightarrow>
             entry ?R i j = sgn (entry W i j) * max (\<bar>entry W i j\<bar> - alpha) 0)"
    by simp
  with call show "\<exists>R. ProxOperL1_call (ProxOperL1_init alpha (Some I) inplace) W = Inr R
           \<and> nrows R = nrows W \<and> ncols R = ncols W \<and> wf_mat R
           \<and> (\<forall>i<nrows W. \<forall>j<ncols W.
                 (entry I i j = 1 \<longrightarrow> entry R i j = entry W i j)
               \<and> (entry I i j = 0 \<longrightarrow>
                    entry R i j = sgn (entry W i j) * max (\<bar>entry W i j\<bar> - alpha) 0))"
    by (intro exI [of _ ?R]) simp
qed

theorem ProxOperL1_soft_thresholding_witness:
  "(0::real) < 1
   \<and> wf_mat \<lparr>ncols = 2, rows = [[2, -3], [1/2, 5::real]]\<rparr>
   \<and> wf_mat \<lparr>ncols = 2, rows = [[1, 0], [0, 1::int]]\<rparr>
   \<and> ProxOperL1_call (ProxOperL1_init 1 None True) \<lparr>ncols = 2, rows = [[2, -3], [1/2, 5]]\<rparr>
       = Inr \<lparr>ncols = 2, rows = [[1, -2], [0, 4]]\<rparr>
   \<and> ProxOperL1_call (ProxOperL1_init 1 (Some \<lparr>ncols = 2, rows = [[1, 0], [0, 1]]\<rparr>) True)
         \<lparr>ncols = 2, rows = [[2, -3], [1/2, 5]]\<rparr>
       = Inr \<lparr>ncols = 2, rows = [[2, -2], [0, 5]]\<rparr>"
  using ProxOperL1_soft_thresholding [of 1 True "\<lparr>ncols = 2, rows = [[2, -3], [1/2, 5]]\<rparr>"
      "\<lparr>ncols = 2, rows = [[1, 0], [0, 1]]\<rparr>"]
  by (simp add: wf_mat_def nrows_def mat_map_def ProxOperL1_call_def ProxOperL1_init_def
      l1_update_def Let_def mat_map2_def broadcast_to_def mk_mat_def entry_def b2r_def
      upt_rec [of _ "numeral _"])

section \<open>ProxOperGroupL2 shrinks or zeroes every column\<close>

lemma l2norm_nonneg: "0 \<le> l2norm xs"
  by (auto simp: l2norm_def intro!: sum_list_nonneg)

lemma l2norm_eq_0_iff: "l2norm xs = 0 \<longleftrightarrow> (\<forall>x \<in> set xs. x = 0)"
proof -
  have "sum_list (map (\<lambda>x. \<bar>x\<bar>\<^sup>2) xs) = 0 \<longleftrightarrow> (\<forall>y \<in> set (map (\<lambda>x. \<bar>x\<bar>\<^sup>2) xs). y = 0)"
    by (rule sum_list_nonneg_eq_0_iff) auto
  then show ?thesis
    by (auto simp: l2norm_def)
qed

lemma l2norm_scale: "l2norm (map (\<lambda>x. k * x) xs) = \<bar>k\<bar> * l2norm xs"
proof -
  have "sum_list (map (\<lambda>x. \<bar>k * x\<bar>\<^sup>2) xs) = k\<^sup>2 * sum_list (map (\<lambda>x. \<bar>x\<bar>\<^sup>2) xs)"
    by (simp add: power_mult_distrib sum_list_const_mult)
  then show ?thesis
    by (simp add: l2norm_def comp_def real_sqrt_mult)
qed

lemma vec_upt: "length v = m \<Longrightarrow> v = map ((!) v) [0..<m]"
  using map_nth [of v] by simp

lemma those_map_Some: "those (map (\<lambda>x. Some (f x)) xs) = Some (map f xs)"
  by (induction xs) simp_all

lemma div_vec_upt:
  "\<forall>j<m. b j \<noteq> 0 \<Longrightarrow>
   div_vec (map a [0..<m]) (map b [0..<m]) = Some (map (\<lambda>j. a j / b j) [0..<m])"
proof -
  assume nz: "\<forall>j<m. b j \<noteq> 0"
  have "map2 safe_div (map a [0..<m]) (map b [0..<m]) = map (\<lambda>j. Some (a j / b j)) [0..<m]"
    using nz by (simp add: map2_map_map safe_div_def)
  then show ?thesis
    by (simp add: div_vec_def those_map_Some)
qed

lemma div_rowvec_mk_mat:
  "\<forall>j<m. b j \<noteq> 0 \<Longrightarrow>
   div_rowvec (mk_mat n m w) (map b [0..<m]) = Some (mk_mat n m (\<lambda>i j. w i j / b j))"
proof -
  assume nz: "\<forall>j<m. b j \<noteq> 0"
  have "map (\<lambda>r. div_vec r (map b [0..<m])) (map (\<lambda>i. map (w i) [0..<m]) [0..<n])
        = map (\<lambda>i. Some (map (\<lambda>j. w i j / b j) [0..<m])) [0..<n]"
    using nz by (simp add: div_vec_upt)
  then have "those (map (\<lambda>r. div_vec r (map b [0..<m])) (rows (mk_mat n m w)))
        = Some (map (\<lambda>i. map (\<lambda>j. w i j / b j) [0..<m]) [0..<n])"
    by (simp only: mk_mat_def mat.simps those_map_Some)
  then show ?thesis
    by (simp add: div_rowvec_def mk_mat_def)
qed

lemma mul_rowvec_mk_mat:
  "mul_rowvec (mk_mat n m w) (map b [0..<m]) = mk_mat n m (\<lambda>i j. w i j * b j)"
  by (simp add: mul_rowvec_def mk_mat_def map2_map_map comp_def)

lemma expand_coeff_length: "expand_coeff c m = Some g \<Longrightarrow> length g = m"
  by (auto simp: expand_coeff_def split: group_coeff.splits if_splits)

lemma col_norm_nonneg: "0 \<le> col_norm W c"
  by (simp add: col_norm_def l2norm_nonneg)

lemma ProxOperGroupL2_call_mk_mat:
  assumes g: "expand_coeff (gl2_group_coeff p) m = Some g"
    and pos: "\<forall>c<m. 0 < g ! c"
  shows "ProxOperGroupL2_call p (mk_mat n m w)
           = Inr (mk_mat n m (\<lambda>i j. gl2_entry (col_norm (mk_mat n m w) j) (g ! j) (w i j)))"
proof -
  let ?W = "mk_mat n m w"
  have len: "length g = m"
    using g by (rule expand_coeff_length)
  have gv: "g = map ((!) g) [0..<m]"
    using len by (rule vec_upt)
  let ?N = "col_norm ?W"
  let ?s = "\<lambda>j. ?N j / g ! j"
  let ?s' = "\<lambda>j. ?s j + b2r (\<not> (?s j > 0))"
  let ?gr = "\<lambda>j. ?N j > g ! j"
  have "div_vec (map ?N [0..<m]) (map ((!) g) [0..<m]) = Some (map ?s [0..<m])"
    using pos by (intro div_vec_upt) auto
  then have d1: "div_vec (norm_dim0 ?W) g = Some (map ?s [0..<m])"
    using gv by (simp add: norm_dim0_def)
  have s'_pos: "\<forall>j<m. ?s' j \<noteq> 0"
  proof (intro allI impI)
    fix j assume "j < m"
    then have "0 < g ! j" using pos by simp
    then have "0 \<le> ?N j / g ! j"
      using col_norm_nonneg [of ?W j] by (simp add: zero_le_divide_iff)
    then show "?s' j \<noteq> 0"
      by (auto simp: b2r_def)
  qed
  have d2: "div_rowvec ?W (map ?s' [0..<m]) = Some (mk_mat n m (\<lambda>i j. w i j / ?s' j))"
    using s'_pos by (rule div_rowvec_mk_mat)
  have gr: "map2 (\<lambda>n c. n > c) (norm_dim0 ?W) g = map ?gr [0..<m]"
  proof -
    have "map2 (\<lambda>n c. n > c) (map ?N [0..<m]) (map ((!) g) [0..<m]) = map ?gr [0..<m]"
      by (simp add: map2_map_map)
    then show ?thesis using gv by (simp add: norm_dim0_def)
  qed
  have "ProxOperGroupL2_call p ?W
        = Inr (mul_rowvec (mat_map2 (-) ?W (mk_mat n m (\<lambda>i j. w i j / ?s' j)))
                 (map (\<lambda>j. b2r (?gr j)) [0..<m]))"
    using g d1 d2 gr by (simp add: ProxOperGroupL2_call_def Let_def comp_def)
  then show ?thesis
    by (simp add: mat_map2_mk_mat mul_rowvec_mk_mat gl2_entry_def)
qed


lemma map_const_replicate: "map (\<lambda>i. c) [0..<n] = replicate n c"
  by (simp add: map_replicate_const)

lemma gl2_entry_le: "N \<le> g \<Longrightarrow> gl2_entry N g w = 0"
  by (simp add: gl2_entry_def b2r_def)

lemma gl2_entry_gr: "0 < g \<Longrightarrow> g < N \<Longrightarrow> gl2_entry N g w = (1 - g / N) * w"
  by (simp add: gl2_entry_def b2r_def field_simps)

lemma ProxOperGroupL2_columns:
  assumes wf: "wf_mat W"
    and g: "expand_coeff (gl2_group_coeff p) (ncols W) = Some g"
    and pos: "\<forall>c<ncols W. 0 < g ! c"
  shows "\<exists>R. ProxOperGroupL2_call p W = Inr R \<and> wf_mat R
           \<and> nrows R = nrows W \<and> ncols R = ncols W
           \<and> (\<forall>c<ncols W.
                (col_norm W c \<le> g ! c \<longrightarrow> col R c = replicate (nrows W) 0)
              \<and> (g ! c < col_norm W c \<longrightarrow>
                   col R c = map (\<lambda>w. (1 - g ! c / col_norm W c) * w) (col W c)
                 \<and> col_norm R c = col_norm W c - g ! c))"
proof -
  let ?n = "nrows W" and ?m = "ncols W"
  let ?R = "mk_mat ?n ?m (\<lambda>i j. gl2_entry (col_norm W j) (g ! j) (entry W i j))"
  have W: "W = mk_mat ?n ?m (entry W)"
    using wf by (rule wf_mat_mk_mat)
  have "ProxOperGroupL2_call p (mk_mat ?n ?m (entry W))
          = Inr (mk_mat ?n ?m (\<lambda>i j. gl2_entry (col_norm (mk_mat ?n ?m (entry W)) j) (g ! j) (entry W i j)))"
    using g pos by (rule ProxOperGroupL2_call_mk_mat)
  then have call: "ProxOperGroupL2_call p W = Inr ?R"
    using W by simp
  have cols: "(col_norm W c \<le> g ! c \<longrightarrow> col ?R c = replicate ?n 0)
              \<and> (g ! c < col_norm W c \<longrightarrow>
                   col ?R c = map (\<lambda>w. (1 - g ! c / col_norm W c) * w) (col W c)
                 \<and> col_norm ?R c = col_norm W c - g ! c)" if c: "c < ?m" for c
  proof (intro conjI impI)
    assume "col_norm W c \<le> g ! c"
    then show "col ?R c = replicate ?n 0"
      using c by (simp add: col_mk_mat gl2_entry_le map_replicate_const)
  next
    assume gr: "g ! c < col_norm W c"
    have gpos: "0 < g ! c" using pos c by simp
    have "col W c = map (\<lambda>i. entry W i c) [0..<?n]"
      using col_mk_mat [OF c, of ?n "entry W"] W by simp
    then show eq: "col ?R c = map (\<lambda>w. (1 - g ! c / col_norm W c) * w) (col W c)"
      using c gr gpos by (simp add: col_mk_mat gl2_entry_gr comp_def)
    have "0 < 1 - g ! c / col_norm W c"
      using gr gpos by simp
    then show "col_norm ?R c = col_norm W c - g ! c"
      using gr gpos unfolding col_norm_def [of ?R] eq l2norm_scale
      by (simp add: col_norm_def [symmetric] field_simps)
  qed
  show ?thesis
    using call cols by (intro exI [of _ ?R]) simp
qed


lemma l2norm_replicate_0: "l2norm (replicate n 0) = 0"
  by (simp add: l2norm_eq_0_iff)

lemma length_col: "length (col W c) = nrows W"
  by (simp add: col_def nrows_def)

lemma col_norm_0_col: "col_norm W c = 0 \<Longrightarrow> col W c = replicate (nrows W) 0"
proof -
  assume "col_norm W c = 0"
  then have "\<forall>x \<in> set (col W c). x = 0"
    by (simp add: col_norm_def l2norm_eq_0_iff)
  then have "replicate (length (col W c)) 0 = col W c"
    by (rule replicate_length_same)
  then show ?thesis
    by (simp add: length_col)
qed

text \<open>
  Claim C2. For a tensor \<open>W\<close> and per-group thresholds \<open>g\<close> that are all positive,
  \<^verbatim>\<open>ProxOperGroupL2\<close> returns a tensor of the shape of \<open>W\<close> in which a column whose L2 norm
  \<open>n\<close> is at most its threshold \<open>g[c]\<close> (equality included) is zero, and a column with
  \<open>n > g[c]\<close> is the column of \<open>W\<close> scaled by \<open>1 - g[c]/n\<close>, of L2 norm \<open>n - g[c]\<close>. The
  thresholds are the coefficient of the operator as it broadcasts against the columns:
  a scalar for all of them, or one entry for each.
\<close>

theorem ProxOperGroupL2_shrink_or_zero:
  "wf_mat W \<Longrightarrow> expand_coeff (gl2_group_coeff p) (ncols W) = Some g
   \<Longrightarrow> \<forall>c<ncols W. 0 < g ! c
   \<Longrightarrow> \<exists>R. ProxOperGroupL2_call p W = Inr R \<and> wf_mat R
           \<and> nrows R = nrows W \<and> ncols R = ncols W
           \<and> (\<forall>c<ncols W.
                (col_norm W c \<le> g ! c \<longrightarrow> col R c = replicate (nrows W) 0)
              \<and> (g ! c < col_norm W c \<longrightarrow>
                   col R c = map (\<lambda>w. (1 - g ! c / col_norm W c) * w) (col W c)
                 \<and> col_norm R c = col_norm W c - g ! c))"
  by (rule ProxOperGroupL2_columns)

theorem ProxOperGroupL2_shrink_or_zero_witness:
  "wf_mat \<lparr>ncols = 2, rows = [[3, 3], [4, 4::real]]\<rparr>
   \<and> expand_coeff (gl2_group_coeff (ProxOperGroupL2_init 1 (Some [5, 2]) True)) 2 = Some [5, 2]
   \<and> 0 < [5, 2::real] ! 0 \<and> 0 < [5, 2::real] ! 1
   \<and> col_norm \<lparr>ncols = 2, rows = [[3, 3], [4, 4]]\<rparr> 0 = 5
   \<and> col_norm \<lparr>ncols = 2, rows = [[3, 3], [4, 4]]\<rparr> 1 = 5
   \<and> ProxOperGroupL2_call (ProxOperGroupL2_init 1 (Some [5, 2]) True)
         \<lparr>ncols = 2, rows = [[3, 3], [4, 4]]\<rparr>
       = Inr \<lparr>ncols = 2, rows = [[0, 9/5], [0, 12/5]]\<rparr>
   \<and> col_norm \<lparr>ncols = 2, rows = [[0, 9/5], [0, 12/5]]\<rparr> 1 = 3"
proof -
  have s25: "sqrt 25 = 5" and s9: "sqrt 9 = 3"
    using real_sqrt_abs [of 5] real_sqrt_abs [of 3] by simp_all
  have all2: "(\<forall>c<2. P c) \<longleftrightarrow> P 0 \<and> P (Suc 0)" for P :: "nat \<Rightarrow> bool"
    by (auto simp: less_Suc_eq numeral_2_eq_2)
  show ?thesis
    using ProxOperGroupL2_shrink_or_zero [of "\<lparr>ncols = 2, rows = [[3, 3], [4, 4]]\<rparr>"
        "ProxOperGroupL2_init 1 (Some [5, 2]) True" "[5, 2]"]
    by (simp add: wf_mat_def expand_coeff_def ProxOperGroupL2_init_def all2 col_norm_def
        l2norm_def col_def ProxOperGroupL2_call_def norm_dim0_def Let_def div_vec_def
        safe_div_def div_rowvec_def mul_rowvec_def mat_map2_def b2r_def s25 s9
        upt_rec [of _ "numeral _"] power2_eq_square)
qed


text \<open>
  Claim C3. With positive thresholds the operator is total: for every tensor, also one
  with columns of L2 norm exactly zero, the call returns a tensor, so none of its
  divisions has a zero divisor (the model reports such a division as \<open>NonFinite\<close>). A
  column of norm zero is returned as it was, all zero, and a second application to the
  result returns a tensor again and leaves such a column zero.
\<close>

theorem ProxOperGroupL2_zero_norm_column:
  "wf_mat W \<Longrightarrow> expand_coeff (gl2_group_coeff p) (ncols W) = Some g
   \<Longrightarrow> \<forall>c<ncols W. 0 < g ! c
   \<Longrightarrow> \<exists>R. ProxOperGroupL2_call p W = Inr R
           \<and> ProxOperGroupL2_call p W \<noteq> Inl NonFinite
           \<and> (\<forall>c<ncols W. col_norm W c = 0 \<longrightarrow>
                  col R c = col W c \<and> col R c = replicate (nrows W) 0)
           \<and> (\<exists>R'. ProxOperGroupL2_call p R = Inr R'
                  \<and> (\<forall>c<ncols W. col_norm W c = 0 \<longrightarrow> col R' c = col R c))"
proof -
  assume wf: "wf_mat W"
    and g: "expand_coeff (gl2_group_coeff p) (ncols W) = Some g"
    and pos: "\<forall>c<ncols W. 0 < g ! c"
  from ProxOperGroupL2_columns [OF wf g pos]
  obtain R where R: "ProxOperGroupL2_call p W = Inr R" "wf_mat R"
      "nrows R = nrows W" "ncols R = ncols W"
    and colsR: "\<forall>c<ncols W. col_norm W c \<le> g ! c \<longrightarrow> col R c = replicate (nrows W) 0"
    by blast
  have zeroR: "col R c = replicate (nrows W) 0" if "c < ncols W" "col_norm W c = 0" for c
    using colsR pos that by (simp add: less_imp_le)
  have g': "expand_coeff (gl2_group_coeff p) (ncols R) = Some g"
    and pos': "\<forall>c<ncols R. 0 < g ! c"
    using g pos R by simp_all
  from ProxOperGroupL2_columns [OF R(2) g' pos']
  obtain R' where R': "ProxOperGroupL2_call p R = Inr R'"
    and colsR': "\<forall>c<ncols R. col_norm R c \<le> g ! c \<longrightarrow> col R' c = replicate (nrows R) 0"
    by blast
  have zeroR': "col R' c = replicate (nrows W) 0" if c: "c < ncols W" "col_norm W c = 0" for c
  proof -
    have "col_norm R c = 0"
      using zeroR [OF c] by (simp add: col_norm_def l2norm_replicate_0)
    then show ?thesis
      using colsR' pos c R by (simp add: less_imp_le)
  qed
  show ?thesis
    using R(1) R' zeroR zeroR' col_norm_0_col [of W] by auto
qed

theorem ProxOperGroupL2_zero_norm_column_witness:
  "wf_mat \<lparr>ncols = 2, rows = [[0, 3], [0, 4::real]]\<rparr>
   \<and> expand_coeff (gl2_group_coeff (ProxOperGroupL2_init 1 None True)) 2 = Some [1, 1]
   \<and> 0 < [1, 1::real] ! 0 \<and> 0 < [1, 1::real] ! 1
   \<and> col_norm \<lparr>ncols = 2, rows = [[0, 3], [0, 4]]\<rparr> 0 = 0
   \<and> ProxOperGroupL2_call (ProxOperGroupL2_init 1 None True)
         \<lparr>ncols = 2, rows = [[0, 3], [0, 4]]\<rparr>
       = Inr \<lparr>ncols = 2, rows = [[0, 12/5], [0, 16/5]]\<rparr>
   \<and> ProxOperGroupL2_call (ProxOperGroupL2_init 1 None True)
         \<lparr>ncols = 2, rows = [[0, 12/5], [0, 16/5]]\<rparr>
       = Inr \<lparr>ncols = 2, rows = [[0, 9/5], [0, 12/5]]\<rparr>"
proof -
  have s25: "sqrt 25 = 5" and s16: "sqrt 16 = 4"
    using real_sqrt_abs [of 5] real_sqrt_abs [of 4] by simp_all
  have s400: "sqrt (400 / 25) = 4"
    using s16 by simp
  have all2: "(\<forall>c<2. P c) \<longleftrightarrow> P 0 \<and> P (Suc 0)" for P :: "nat \<Rightarrow> bool"
    by (auto simp: less_Suc_eq numeral_2_eq_2)
  have r2: "replicate 2 x = [x, x]" for x :: real
    by (simp add: numeral_2_eq_2)
  show ?thesis
    using ProxOperGroupL2_zero_norm_column [of "\<lparr>ncols = 2, rows = [[0, 3], [0, 4]]\<rparr>"
        "ProxOperGroupL2_init 1 None True" "[1, 1]"]
    by (simp add: wf_mat_def nrows_def expand_coeff_def ProxOperGroupL2_init_def all2 r2 col_norm_def
        l2norm_def col_def ProxOperGroupL2_call_def norm_dim0_def Let_def div_vec_def
        safe_div_def div_rowvec_def mul_rowvec_def mat_map2_def b2r_def s25 s16 s400
        upt_rec [of _ "numeral _"] power2_eq_square)
qed

section \<open>The composed operators\<close>

lemma nrows_mat_map [simp]: "nrows (mat_map f W) = nrows W"
  by (simp add: nrows_def mat_map_def)

lemma ncols_mat_map [simp]: "ncols (mat_map f W) = ncols W"
  by (simp add: mat_map_def)

lemma wf_mat_map [simp]: "wf_mat (mat_map f W) = wf_mat W"
  by (auto simp: wf_mat_def mat_map_def)

lemma col_mat_map: "wf_mat W \<Longrightarrow> c < ncols W \<Longrightarrow> col (mat_map f W) c = map f (col W c)"
  by (simp add: wf_mat_def mat_map_def col_def)

lemma expand_coeff_Scalar: "expand_coeff (Scalar a) m = Some (replicate m a)"
  by (simp add: expand_coeff_def)

lemma get_prox_operators_annotated:
  "get_prox_operators I (Some l1) lambda2 lambda3 ''annotated''
     = Some (then_op (ProxOperL1_call (ProxOperL1_init l1 I True))
               (case lambda3 of
                  Some l3 \<Rightarrow> ProxOperGroupL2_call (ProxOperGroupL2_init l3 None True)
                | None \<Rightarrow> (\<lambda>W. Inr W)))"
  by (simp add: get_prox_operators_def TERMS_KEYS_def Let_def split: option.splits)

lemma get_prox_operators_sparse:
  "get_prox_operators I lambda1 (Some l2) lambda3 ''sparse''
     = Some (then_op (ProxOperL1_call (ProxOperL1_init l2 None True))
               (case lambda3 of
                  Some l3 \<Rightarrow> ProxOperGroupL2_call (ProxOperGroupL2_init l3 None True)
                | None \<Rightarrow> (\<lambda>W. Inr W)))"
  by (simp add: get_prox_operators_def TERMS_KEYS_def Let_def split: option.splits)

lemma get_prox_operators_dense:
  "get_prox_operators I lambda1 lambda2 lambda3 ''dense''
     = Some (case lambda3 of
               Some l3 \<Rightarrow> ProxOperGroupL2_call (ProxOperGroupL2_init l3 None True)
             | None \<Rightarrow> (\<lambda>W. Inr W))"
  by (simp add: get_prox_operators_def TERMS_KEYS_def Let_def split: option.splits)

text \<open>
  Claim C4. The operator that \<^verbatim>\<open>get_prox_operators\<close> enters for the annotated block, and
  the one for the sparse block, is on every tensor \<open>W\<close> the group-L2 operator applied to
  what the L1 operator returns for \<open>W\<close>: L1 first, the group step second (and with
  \<open>lambda3\<close> unset the L1 operator alone). For a sparse block of shape 5 by 2 with a column
  whose entries are all 0.5 and \<open>lambda2 = lambda3 = 1\<close>, the L1 step returns that column
  all zero, so the group step receives it zero, and the composed operator returns it
  zero.
\<close>

theorem get_prox_operators_L1_then_group:
  "(\<exists>p. get_prox_operators I (Some l1) lambda2 (Some l3) ''annotated'' = Some p
      \<and> (\<forall>W. p W = (case ProxOperL1_call (ProxOperL1_init l1 I True) W of
                         Inl e \<Rightarrow> Inl e
                       | Inr W1 \<Rightarrow> ProxOperGroupL2_call (ProxOperGroupL2_init l3 None True) W1)))
   \<and> (\<exists>p. get_prox_operators I lambda1 (Some l2) (Some l3) ''sparse'' = Some p
      \<and> (\<forall>W. p W = (case ProxOperL1_call (ProxOperL1_init l2 None True) W of
                         Inl e \<Rightarrow> Inl e
                       | Inr W1 \<Rightarrow> ProxOperGroupL2_call (ProxOperGroupL2_init l3 None True) W1)))
   \<and> (\<exists>p. get_prox_operators I (Some l1) lambda2 None ''annotated'' = Some p
      \<and> (\<forall>W. p W = ProxOperL1_call (ProxOperL1_init l1 I True) W))
   \<and> (\<exists>p. get_prox_operators I lambda1 (Some l2) None ''sparse'' = Some p
      \<and> (\<forall>W. p W = ProxOperL1_call (ProxOperL1_init l2 None True) W))
   \<and> (wf_mat W \<and> nrows W = 5 \<and> ncols W = 2 \<and> c < 2 \<and> col W c = replicate 5 (1/2) \<longrightarrow>
        (\<exists>p W1 R. get_prox_operators I lambda1 (Some 1) (Some 1) ''sparse'' = Some p
           \<and> ProxOperL1_call (ProxOperL1_init 1 None True) W = Inr W1
           \<and> col W1 c = replicate 5 0
           \<and> p W = ProxOperGroupL2_call (ProxOperGroupL2_init 1 None True) W1
           \<and> p W = Inr R
           \<and> col R c = replicate 5 0))"
proof (intro conjI impI)
  show "\<exists>p. get_prox_operators I (Some l1) lambda2 (Some l3) ''annotated'' = Some p
      \<and> (\<forall>W. p W = (case ProxOperL1_call (ProxOperL1_init l1 I True) W of
                         Inl e \<Rightarrow> Inl e
                       | Inr W1 \<Rightarrow> ProxOperGroupL2_call (ProxOperGroupL2_init l3 None True) W1))"
    by (simp add: get_prox_operators_annotated then_op_def)
  show "\<exists>p. get_prox_operators I lambda1 (Some l2) (Some l3) ''sparse'' = Some p
      \<and> (\<forall>W. p W = (case ProxOperL1_call (ProxOperL1_init l2 None True) W of
                         Inl e \<Rightarrow> Inl e
                       | Inr W1 \<Rightarrow> ProxOperGroupL2_call (ProxOperGroupL2_init l3 None True) W1))"
    by (simp add: get_prox_operators_sparse then_op_def)
  show "\<exists>p. get_prox_operators I (Some l1) lambda2 None ''annotated'' = Some p
      \<and> (\<forall>W. p W = ProxOperL1_call (ProxOperL1_init l1 I True) W)"
    by (simp add: get_prox_operators_annotated then_op_def split: sum.splits)
  show "\<exists>p. get_prox_operators I lambda1 (Some l2) None ''sparse'' = Some p
      \<and> (\<forall>W. p W = ProxOperL1_call (ProxOperL1_init l2 None True) W)"
    by (simp add: get_prox_operators_sparse then_op_def split: sum.splits)
next
  assume A: "wf_mat W \<and> nrows W = 5 \<and> ncols W = 2 \<and> c < 2 \<and> col W c = replicate 5 (1/2)"
  let ?W1 = "mat_map (\<lambda>w. sgn w * max (\<bar>w\<bar> - 1) 0) W"
  let ?gr = "ProxOperGroupL2_init 1 None True"
  have l1: "ProxOperL1_call (ProxOperL1_init 1 None True) W = Inr ?W1"
    by (simp add: ProxOperL1_call_no_mask)
  have "col ?W1 c = map (\<lambda>w. sgn w * max (\<bar>w\<bar> - 1) 0) (col W c)"
    using A by (simp add: col_mat_map)
  then have col1: "col ?W1 c = replicate 5 0"
    using A by simp
  have g: "expand_coeff (gl2_group_coeff ?gr) (ncols ?W1) = Some (replicate (ncols ?W1) 1)"
    by (simp add: ProxOperGroupL2_init_def expand_coeff_Scalar)
  have "wf_mat ?W1" and "\<forall>c<ncols ?W1. 0 < replicate (ncols ?W1) (1::real) ! c"
    using A by simp_all
  from ProxOperGroupL2_columns [OF this(1) g this(2)]
  obtain R where R: "ProxOperGroupL2_call ?gr ?W1 = Inr R"
    and cols: "\<forall>c<ncols ?W1. col_norm ?W1 c \<le> replicate (ncols ?W1) 1 ! c
                 \<longrightarrow> col R c = replicate (nrows ?W1) 0"
    by blast
  have "col_norm ?W1 c = 0"
    using col1 by (simp add: col_norm_def l2norm_replicate_0)
  then have colR: "col R c = replicate 5 0"
    using cols A by simp
  have p: "get_prox_operators I lambda1 (Some 1) (Some 1) ''sparse''
             = Some (then_op (ProxOperL1_call (ProxOperL1_init 1 None True))
                       (ProxOperGroupL2_call ?gr))"
    by (simp add: get_prox_operators_sparse)
  show "\<exists>p W1 R. get_prox_operators I lambda1 (Some 1) (Some 1) ''sparse'' = Some p
           \<and> ProxOperL1_call (ProxOperL1_init 1 None True) W = Inr W1
           \<and> col W1 c = replicate 5 0
           \<and> p W = ProxOperGroupL2_call (ProxOperGroupL2_init 1 None True) W1
           \<and> p W = Inr R
           \<and> col R c = replicate 5 0"
    using p l1 col1 R colR by (simp add: then_op_def)
qed

theorem get_prox_operators_L1_then_group_witness:
  "wf_mat \<lparr>ncols = 2, rows = [[1/2, 4], [1/2, -5], [1/2, 0], [1/2, 1], [1/2, 1::real]]\<rparr>
   \<and> nrows \<lparr>ncols = 2, rows = [[1/2, 4], [1/2, -5], [1/2, 0], [1/2, 1], [1/2, 1::real]]\<rparr> = 5
   \<and> col \<lparr>ncols = 2, rows = [[1/2, 4], [1/2, -5], [1/2, 0], [1/2, 1], [1/2, 1::real]]\<rparr> 0
       = replicate 5 (1/2)
   \<and> ProxOperL1_call (ProxOperL1_init 1 None True)
         \<lparr>ncols = 2, rows = [[1/2, 4], [1/2, -5], [1/2, 0], [1/2, 1], [1/2, 1]]\<rparr>
       = Inr \<lparr>ncols = 2, rows = [[0, 3], [0, -4], [0, 0], [0, 0], [0, 0]]\<rparr>
   \<and> (\<exists>p. get_prox_operators None None (Some 1) (Some 1) ''sparse'' = Some p
        \<and> p \<lparr>ncols = 2, rows = [[1/2, 4], [1/2, -5], [1/2, 0], [1/2, 1], [1/2, 1]]\<rparr>
            = Inr \<lparr>ncols = 2, rows = [[0, 12/5], [0, -16/5], [0, 0], [0, 0], [0, 0]]\<rparr>)"
proof -
  let ?W = "\<lparr>ncols = 2, rows = [[1/2, 4], [1/2, -5], [1/2, 0], [1/2, 1], [1/2, 1::real]]\<rparr>"
  let ?W1 = "\<lparr>ncols = 2, rows = [[0, 3], [0, -4], [0, 0], [0, 0], [0, 0::real]]\<rparr>"
  have hyp: "wf_mat ?W \<and> nrows ?W = 5 \<and> ncols ?W = 2 \<and> (0::nat) < 2
               \<and> col ?W 0 = replicate 5 (1/2)"
    by (simp add: wf_mat_def nrows_def col_def eval_nat_numeral)
  have l1: "ProxOperL1_call (ProxOperL1_init 1 None True) ?W = Inr ?W1"
    by (simp add: ProxOperL1_call_no_mask mat_map_def)
  have s25: "sqrt 25 = 5"
    using real_sqrt_abs [of 5] by simp
  have gr: "ProxOperGroupL2_call (ProxOperGroupL2_init 1 None True) ?W1
              = Inr \<lparr>ncols = 2, rows = [[0, 12/5], [0, -16/5], [0, 0], [0, 0], [0, 0]]\<rparr>"
    by (simp add: expand_coeff_def ProxOperGroupL2_init_def col_norm_def
        l2norm_def col_def ProxOperGroupL2_call_def norm_dim0_def Let_def div_vec_def
        safe_div_def div_rowvec_def mul_rowvec_def mat_map2_def b2r_def s25
        upt_rec [of _ "numeral _"] power2_eq_square numeral_2_eq_2)
  from get_prox_operators_L1_then_group [of None 1 "Some 1" 1 None 1 ?W 0] hyp
  obtain p W1 where "get_prox_operators None None (Some 1) (Some 1) ''sparse'' = Some p"
    and "ProxOperL1_call (ProxOperL1_init 1 None True) ?W = Inr W1"
    and "p ?W = ProxOperGroupL2_call (ProxOperGroupL2_init 1 None True) W1"
    by blast
  with l1 gr hyp show ?thesis
    by simp
qed

section \<open>The decoder\<close>

lemma sum_list_b2r: "sum_list (map (\<lambda>x. b2r (P x)) xs) = real (length (filter P xs))"
  by (induction xs) (simp_all add: b2r_def)

lemma inactive_count_block:
  "sum_list (map (\<lambda>x. b2r (\<not> (x > 0))) (norm_dim0 v))
     = real (length (filter (\<lambda>c. col_norm v c = 0) [0..<ncols v]))"
proof -
  have "\<not> (col_norm v c > 0) \<longleftrightarrow> col_norm v c = 0" for c
    using col_norm_nonneg [of v c] by auto
  then show ?thesis
    by (simp add: norm_dim0_def comp_def sum_list_b2r filter_map)
qed

lemma n_inactive_terms_loop_eq:
  "n_inactive_terms_loop vs (wd, n)
     = (wd, n + real (sum_list (map (\<lambda>v. length (filter (\<lambda>c. col_norm v c = 0) [0..<ncols v])) vs)))"
  by (induction vs arbitrary: n) (simp_all add: inactive_count_block)

lemma py_int_of_nat: "py_int (real n) = int n"
  by (simp add: py_int_def)

text \<open>
  Claim C7. In every state of the weight dictionary \<^verbatim>\<open>n_inactive_terms()\<close> returns the
  integer that is the number of columns, over all blocks, whose L2 norm over the rows
  is exactly zero, and leaves every block as it was.
\<close>

theorem n_inactive_terms_counts_zero_columns:
  "n_inactive_terms wd
     = (wd, int (sum_list (map (\<lambda>(k, W). length (filter (\<lambda>c. col_norm W c = 0) [0..<ncols W])) wd)))"
proof -
  have "map (\<lambda>v. length (filter (\<lambda>c. col_norm v c = 0) [0..<ncols v])) (map snd wd)
          = map (\<lambda>(k, W). length (filter (\<lambda>c. col_norm W c = 0) [0..<ncols W])) wd"
    by (simp add: split_def)
  then show ?thesis
    by (simp add: n_inactive_terms_def n_inactive_terms_loop_eq py_int_of_nat
        del: map_map)
qed

lemma hcat_single: "hcat [W] = Some W"
proof -
  have "map (\<lambda>i. rows W ! i) [0..<nrows W] = rows W"
    unfolding nrows_def by (rule map_nth)
  then show ?thesis
    by (simp add: hcat_def)
qed

text \<open>
  Claim C10. For a decoder with exactly one block, \<^verbatim>\<open>forward\<close> takes the branch that
  multiplies by the transpose of that block, and for every input, also one of unfit
  shape, that branch returns what the other branch, which concatenates the tuple of
  blocks first, returns for the same blocks.
\<close>

theorem forward_single_block_fast_path:
  "length wd = 1 \<Longrightarrow>
   forward wd x = forward_single (map snd wd) x
   \<and> forward_single (map snd wd) x = forward_cat (map snd wd) x"
proof -
  assume "length wd = 1"
  then obtain kW where wd: "wd = [kW]"
    by (cases wd) auto
  show ?thesis
    by (simp add: wd forward_def forward_single_def forward_cat_def hcat_single)
qed

theorem forward_single_block_fast_path_witness:
  "length [(''sparse'', \<lparr>ncols = 2, rows = [[1, 2], [3, 4], [5, 6::real]]\<rparr>)] = 1
   \<and> forward [(''sparse'', \<lparr>ncols = 2, rows = [[1, 2], [3, 4], [5, 6]]\<rparr>)]
         \<lparr>ncols = 2, rows = [[1, 1]]\<rparr>
       = Inr \<lparr>ncols = 3, rows = [[3, 7, 11]]\<rparr>
   \<and> forward_cat [\<lparr>ncols = 2, rows = [[1, 2], [3, 4], [5, 6]]\<rparr>]
         \<lparr>ncols = 2, rows = [[1, 1]]\<rparr>
       = Inr \<lparr>ncols = 3, rows = [[3, 7, 11]]\<rparr>"
proof -
  have "forward_single [\<lparr>ncols = 2, rows = [[1, 2], [3, 4], [5, 6::real]]\<rparr>]
          \<lparr>ncols = 2, rows = [[1, 1]]\<rparr>
        = Inr \<lparr>ncols = 3, rows = [[3, 7, 11]]\<rparr>"
    by (simp add: forward_single_def matmul_def transpose_mat_def mk_mat_def nrows_def
        entry_def upt_rec [of _ "numeral _"] upt_rec [of _ "Suc _"])
  then show ?thesis
    using forward_single_block_fast_path
      [of "[(''sparse'', \<lparr>ncols = 2, rows = [[1, 2], [3, 4], [5, 6]]\<rparr>)]"
          "\<lparr>ncols = 2, rows = [[1, 1]]\<rparr>"]
    by simp
qed

lemma fixed_order_values:
  assumes "map fst wd = filter (\<lambda>k. k \<in> set (map fst wd)) TERMS_KEYS"
  shows "List.map_filter (map_of wd) TERMS_KEYS = map snd wd"
proof -
  let ?P = "\<lambda>k. k \<in> set (map fst wd)"
  consider "map fst wd = []" | "map fst wd = [''annotated'']" | "map fst wd = [''sparse'']"
    | "map fst wd = [''dense'']" | "map fst wd = [''annotated'', ''sparse'']"
    | "map fst wd = [''annotated'', ''dense'']" | "map fst wd = [''sparse'', ''dense'']"
    | "map fst wd = [''annotated'', ''sparse'', ''dense'']"
    using assms by (cases "?P ''annotated''"; cases "?P ''sparse''"; cases "?P ''dense''")
      (simp_all add: TERMS_KEYS_def)
  then show ?thesis
    by cases (auto simp: map_eq_Cons_conv List.map_filter_def TERMS_KEYS_def)
qed


lemma hcat_shape:
  assumes "Ws \<noteq> []" and "\<forall>W \<in> set Ws. nrows W = n"
  shows "\<exists>Wc. hcat Ws = Some Wc \<and> nrows Wc = n \<and> ncols Wc = sum_list (map ncols Ws)"
proof -
  obtain W Ws' where Ws: "Ws = W # Ws'"
    using assms(1) by (cases Ws) auto
  have "\<forall>V \<in> set Ws. nrows V = nrows W"
    using assms(2) Ws by simp
  then have "hcat Ws = Some \<lparr>ncols = sum_list (map ncols Ws),
                     rows = map (\<lambda>i. concat (map (\<lambda>V. rows V ! i) Ws)) [0..<nrows W]\<rparr>"
    unfolding hcat_def Ws by simp
  moreover have "nrows W = n"
    using assms(2) Ws by simp
  ultimately show ?thesis
    by (simp add: nrows_def)
qed

lemma forward_eq_forward_cat: "forward wd x = forward_cat (map snd wd) x"
proof (cases "length wd = 1")
  case True
  then obtain kW where "wd = [kW]"
    by (cases wd) auto
  then show ?thesis
    by (simp add: forward_def forward_single_def forward_cat_def hcat_single)
next
  case False
  then show ?thesis
    by (simp add: forward_def)
qed

lemma matmul_transposed:
  assumes "ncols x = ncols Wc"
  shows "matmul x (transpose_mat Wc)
           = Inr (mk_mat (nrows x) (nrows Wc)
                   (\<lambda>b v. sum_list (map (\<lambda>t. entry x b t * entry Wc v t) [0..<ncols x])))"
proof -
  have "sum_list (map (\<lambda>t. entry x b t * entry (transpose_mat Wc) t v) [0..<ncols x])
          = sum_list (map (\<lambda>t. entry x b t * entry Wc v t) [0..<ncols x])"
    if "v < nrows Wc" for b v
    using that assms by (intro arg_cong [of _ _ sum_list] map_cong) (simp_all add: transpose_mat_def)
  then have "mk_mat (nrows x) (nrows Wc)
               (\<lambda>b v. sum_list (map (\<lambda>t. entry x b t * entry (transpose_mat Wc) t v) [0..<ncols x]))
             = mk_mat (nrows x) (nrows Wc)
               (\<lambda>b v. sum_list (map (\<lambda>t. entry x b t * entry Wc v t) [0..<ncols x]))"
    by (intro mk_mat_cong) simp
  then show ?thesis
    using assms by (simp add: matmul_def transpose_mat_def)
qed

lemma entry_mat_map:
  "wf_mat x \<Longrightarrow> i < nrows x \<Longrightarrow> j < ncols x \<Longrightarrow> entry (mat_map f x) i j = f (entry x i j)"
  by (simp add: wf_mat_def nrows_def entry_def mat_map_def)

lemma matmul_transposed_scale:
  assumes "wf_mat x" and "ncols x = ncols Wc" and "matmul x (transpose_mat Wc) = Inr R"
  shows "matmul (mat_map (\<lambda>a. c * a) x) (transpose_mat Wc) = Inr (mat_map (\<lambda>a. c * a) R)"
proof -
  let ?f = "\<lambda>b v. sum_list (map (\<lambda>t. entry x b t * entry Wc v t) [0..<ncols x])"
  let ?x' = "mat_map (\<lambda>a. c * a) x"
  have R: "R = mk_mat (nrows x) (nrows Wc) ?f"
    using assms(3) matmul_transposed [OF assms(2)] by simp
  have "sum_list (map (\<lambda>t. entry ?x' b t * entry Wc v t) [0..<ncols ?x']) = c * ?f b v"
    if "b < nrows x" for b v
  proof -
    have "map (\<lambda>t. entry ?x' b t * entry Wc v t) [0..<ncols x]
            = map (\<lambda>t. c * (entry x b t * entry Wc v t)) [0..<ncols x]"
      using that assms(1) by (intro map_cong) (simp_all add: entry_mat_map mult.assoc)
    then have "sum_list (map (\<lambda>t. entry ?x' b t * entry Wc v t) [0..<ncols x])
            = sum_list (map (\<lambda>t. c * (entry x b t * entry Wc v t)) [0..<ncols x])"
      by (rule arg_cong)
    also have "\<dots> = c * ?f b v"
      by (rule sum_list_const_mult)
    finally show ?thesis
      by (simp only: ncols_mat_map)
  qed
  then have "mk_mat (nrows x) (nrows Wc)
               (\<lambda>b v. sum_list (map (\<lambda>t. entry ?x' b t * entry Wc v t) [0..<ncols ?x']))
             = mk_mat (nrows x) (nrows Wc) (\<lambda>b v. c * ?f b v)"
    by (intro mk_mat_cong) simp
  then have "mk_mat (nrows ?x') (nrows Wc)
               (\<lambda>b v. sum_list (map (\<lambda>t. entry ?x' b t * entry Wc v t) [0..<ncols ?x']))
             = mk_mat (nrows x) (nrows Wc) (\<lambda>b v. c * ?f b v)"
    by (simp only: nrows_mat_map)
  moreover have "ncols ?x' = ncols Wc"
    using assms(2) by simp
  ultimately show ?thesis
    using matmul_transposed [of ?x' Wc] by (simp add: R mat_map_mk_mat)
qed

lemma CompositeLinearDecoder_init_state:
  assumes "CompositeLinearDecoder_init n_vars n_ann n_sparse n_dense randn = Inr wd"
  shows "wd \<noteq> []"
    and "map fst wd = filter (\<lambda>k. k \<in> set (map fst wd)) TERMS_KEYS"
    and "\<forall>W \<in> set (map snd wd). wf_mat W \<and> nrows W = n_vars"
  using assms
  by (cases n_ann; cases n_sparse; cases n_dense;
      auto simp: CompositeLinearDecoder_init_def TERMS_KEYS_def Let_def)+

text \<open>
  Claim C6. The blocks of a decoder are stored in the fixed order annotated, sparse,
  dense (the constructor leaves them so, see \<open>CompositeLinearDecoder_init_state\<close>) and have
  \<open>n_vars\<close> rows each. For such a decoder and an input \<open>x\<close> of shape \<open>(batch, n_terms)\<close>, where
  \<open>n_terms\<close> is the total number of columns of the blocks, \<^verbatim>\<open>forward(x)\<close> returns \<open>x\<close> times the
  transpose of the concatenation of the blocks in that order: a tensor of shape
  \<open>(batch, n_vars)\<close> whose entry \<open>(b, v)\<close> is the sum over \<open>t\<close> of \<open>x[b,t] * W[v,t]\<close>. Doubling
  \<open>x\<close> doubles the output.
\<close>

theorem forward_is_x_times_transposed_concatenation:
  "wd \<noteq> [] \<Longrightarrow> map fst wd = filter (\<lambda>k. k \<in> set (map fst wd)) TERMS_KEYS
   \<Longrightarrow> \<forall>W \<in> set (map snd wd). nrows W = n_vars
   \<Longrightarrow> wf_mat x \<Longrightarrow> ncols x = sum_list (map (\<lambda>(k, W). ncols W) wd)
   \<Longrightarrow> \<exists>Wc R. cat_fixed_order wd = Some Wc
          \<and> forward wd x = Inr R
          \<and> matmul x (transpose_mat Wc) = Inr R
          \<and> nrows R = nrows x \<and> ncols R = n_vars
          \<and> (\<forall>b<nrows x. \<forall>v<n_vars.
                entry R b v = sum_list (map (\<lambda>t. entry x b t * entry Wc v t) [0..<ncols x]))
          \<and> forward wd (mat_map (\<lambda>a. 2 * a) x) = Inr (mat_map (\<lambda>a. 2 * a) R)"
proof -
  assume ne: "wd \<noteq> []"
    and keys: "map fst wd = filter (\<lambda>k. k \<in> set (map fst wd)) TERMS_KEYS"
    and rows: "\<forall>W \<in> set (map snd wd). nrows W = n_vars"
    and wf: "wf_mat x"
    and nt: "ncols x = sum_list (map (\<lambda>(k, W). ncols W) wd)"
  have "map snd wd \<noteq> []"
    using ne by simp
  from hcat_shape [OF this rows]
  obtain Wc where Wc: "hcat (map snd wd) = Some Wc" "nrows Wc = n_vars"
    "ncols Wc = sum_list (map ncols (map snd wd))"
    by blast
  have nc: "ncols x = ncols Wc"
    using nt Wc(3) by (simp add: comp_def split_def)
  let ?R = "mk_mat (nrows x) (nrows Wc)
              (\<lambda>b v. sum_list (map (\<lambda>t. entry x b t * entry Wc v t) [0..<ncols x]))"
  have mm: "matmul x (transpose_mat Wc) = Inr ?R"
    using nc by (rule matmul_transposed)
  have cat: "cat_fixed_order wd = Some Wc"
    using Wc(1) fixed_order_values [OF keys] by (simp add: cat_fixed_order_def)
  have fw: "forward wd y = matmul y (transpose_mat Wc)" for y
    using Wc(1) by (simp add: forward_eq_forward_cat forward_cat_def)
  have "forward wd (mat_map (\<lambda>a. 2 * a) x) = Inr (mat_map (\<lambda>a. 2 * a) ?R)"
    unfolding fw using wf nc mm by (rule matmul_transposed_scale)
  then show ?thesis
    using cat fw mm Wc(2) by (intro exI [of _ Wc] exI [of _ ?R]) simp
qed



theorem forward_is_x_times_transposed_concatenation_witness:
  "[(''annotated'', \<lparr>ncols = 1, rows = [[1], [2::real]]\<rparr>),
    (''dense'', \<lparr>ncols = 2, rows = [[3, 4], [5, 6]]\<rparr>)] \<noteq> []
   \<and> map fst [(''annotated'', \<lparr>ncols = 1, rows = [[1], [2::real]]\<rparr>),
               (''dense'', \<lparr>ncols = 2, rows = [[3, 4], [5, 6]]\<rparr>)]
       = filter (\<lambda>k. k \<in> set [''annotated'', ''dense'']) TERMS_KEYS
   \<and> nrows \<lparr>ncols = 1, rows = [[1], [2::real]]\<rparr> = 2
   \<and> nrows \<lparr>ncols = 2, rows = [[3, 4], [5, 6::real]]\<rparr> = 2
   \<and> wf_mat \<lparr>ncols = 3, rows = [[1, 1, 1::real]]\<rparr>
   \<and> cat_fixed_order [(''annotated'', \<lparr>ncols = 1, rows = [[1], [2]]\<rparr>),
                        (''dense'', \<lparr>ncols = 2, rows = [[3, 4], [5, 6]]\<rparr>)]
       = Some \<lparr>ncols = 3, rows = [[1, 3, 4], [2, 5, 6]]\<rparr>
   \<and> forward [(''annotated'', \<lparr>ncols = 1, rows = [[1], [2]]\<rparr>),
                (''dense'', \<lparr>ncols = 2, rows = [[3, 4], [5, 6]]\<rparr>)]
         \<lparr>ncols = 3, rows = [[1, 1, 1]]\<rparr>
       = Inr \<lparr>ncols = 2, rows = [[8, 13]]\<rparr>
   \<and> forward [(''annotated'', \<lparr>ncols = 1, rows = [[1], [2]]\<rparr>),
                (''dense'', \<lparr>ncols = 2, rows = [[3, 4], [5, 6]]\<rparr>)]
         (mat_map (\<lambda>a. 2 * a) \<lparr>ncols = 3, rows = [[1, 1, 1]]\<rparr>)
       = Inr \<lparr>ncols = 2, rows = [[16, 26]]\<rparr>"
proof -
  let ?wd = "[(''annotated'', \<lparr>ncols = 1, rows = [[1], [2::real]]\<rparr>),
              (''dense'', \<lparr>ncols = 2, rows = [[3, 4], [5, 6]]\<rparr>)]"
  let ?x = "\<lparr>ncols = 3, rows = [[1, 1, 1::real]]\<rparr>"
  have hyps: "?wd \<noteq> []"
    "map fst ?wd = filter (\<lambda>k. k \<in> set (map fst ?wd)) TERMS_KEYS"
    "\<forall>W \<in> set (map snd ?wd). nrows W = 2"
    "wf_mat ?x"
    "ncols ?x = sum_list (map (\<lambda>(k, W). ncols W) ?wd)"
    by (simp_all add: TERMS_KEYS_def nrows_def wf_mat_def)
  have cat: "cat_fixed_order ?wd = Some \<lparr>ncols = 3, rows = [[1, 3, 4], [2, 5, 6]]\<rparr>"
    by (simp add: cat_fixed_order_def TERMS_KEYS_def List.map_filter_def hcat_def nrows_def
        upt_rec [of _ "numeral _"] upt_rec [of _ "Suc _"])
  have mm: "matmul ?x (transpose_mat \<lparr>ncols = 3, rows = [[1, 3, 4], [2, 5, 6]]\<rparr>)
              = Inr \<lparr>ncols = 2, rows = [[8, 13]]\<rparr>"
    by (simp add: matmul_def transpose_mat_def mk_mat_def nrows_def entry_def
        upt_rec [of _ "numeral _"] upt_rec [of _ "Suc _"])
  from forward_is_x_times_transposed_concatenation [OF hyps]
  obtain Wc R where "cat_fixed_order ?wd = Some Wc" "forward ?wd ?x = Inr R"
    "matmul ?x (transpose_mat Wc) = Inr R"
    "forward ?wd (mat_map (\<lambda>a. 2 * a) ?x) = Inr (mat_map (\<lambda>a. 2 * a) R)"
    by blast
  with cat mm have "forward ?wd ?x = Inr \<lparr>ncols = 2, rows = [[8, 13]]\<rparr>"
    and "forward ?wd (mat_map (\<lambda>a. 2 * a) ?x)
           = Inr (mat_map (\<lambda>a. 2 * a) \<lparr>ncols = 2, rows = [[8, 13]]\<rparr>)"
    by simp_all
  with cat hyps show ?thesis
    by (simp add: mat_map_def nrows_def TERMS_KEYS_def)
qed

section \<open>The training loop: exceptions and names of blocks\<close>

lemma ProxOperL1_call_error: "ProxOperL1_call p W = Inl e \<Longrightarrow> e = RuntimeError"
  by (auto simp: ProxOperL1_call_def Let_def split: option.splits)

lemma ProxOperGroupL2_call_error:
  "ProxOperGroupL2_call p W = Inl e \<Longrightarrow> e = RuntimeError \<or> e = NonFinite"
  by (auto simp: ProxOperGroupL2_call_def Let_def split: option.splits)

lemma ProxOperGroupL2_call_scalar_error:
  "ProxOperGroupL2_call (ProxOperGroupL2_init l None ip) W = Inl e \<Longrightarrow> e = NonFinite"
  by (auto simp: ProxOperGroupL2_call_def ProxOperGroupL2_init_def expand_coeff_Scalar Let_def
      split: option.splits)

lemma ProxOperL1_call_no_mask_total:
  "\<exists>f. ProxOperL1_call (ProxOperL1_init a None ip) W = Inr (mat_map f W)"
  by (auto simp add: ProxOperL1_call_def ProxOperL1_init_def l1_update_def Let_def
      mat_map2_same mat_map2_left)

lemma dom_get_prox_operators:
  "dom (get_prox_operators I lambda1 lambda2 lambda3)
     = {''dense''} \<union> (if lambda1 = None then {} else {''annotated''})
        \<union> (if lambda2 = None then {} else {''sparse''})"
  by (auto simp: get_prox_operators_def TERMS_KEYS_def Let_def split: option.splits if_splits)

lemma get_prox_operators_error:
  assumes "get_prox_operators I lambda1 lambda2 lambda3 k = Some p" and "p W = Inl e"
  shows "e = RuntimeError \<or> e = NonFinite"
proof -
  let ?gr = "case lambda3 of
               Some l3 \<Rightarrow> ProxOperGroupL2_call (ProxOperGroupL2_init l3 None True)
             | None \<Rightarrow> (\<lambda>W. Inr W)"
  have gr: "?gr V = Inl e \<Longrightarrow> e = RuntimeError \<or> e = NonFinite" for V
    by (cases lambda3) (auto dest: ProxOperGroupL2_call_error)
  have "k \<in> dom (get_prox_operators I lambda1 lambda2 lambda3)"
    using assms(1) by blast
  then consider "k = ''dense''" | l1 where "k = ''annotated''" "lambda1 = Some l1"
    | l2 where "k = ''sparse''" "lambda2 = Some l2"
    by (auto simp: dom_get_prox_operators split: if_splits)
  then show ?thesis
  proof cases
    case 1
    then show ?thesis
      using assms gr by (simp add: get_prox_operators_dense)
  next
    case 2
    then have "p = then_op (ProxOperL1_call (ProxOperL1_init l1 I True)) ?gr"
      using assms(1) by (simp add: get_prox_operators_annotated)
    then show ?thesis
      using assms(2) gr by (auto simp: then_op_def split: sum.splits dest: ProxOperL1_call_error)
  next
    case 3
    then have "p = then_op (ProxOperL1_call (ProxOperL1_init l2 None True)) ?gr"
      using assms(1) by (simp add: get_prox_operators_sparse)
    then show ?thesis
      using assms(2) gr by (auto simp: then_op_def split: sum.splits dest: ProxOperL1_call_error)
  qed
qed

lemma get_prox_operators_unmasked_error:
  assumes p: "get_prox_operators I lambda1 lambda2 lambda3 k = Some p"
    and k: "k \<noteq> ''annotated''" and e: "p W = Inl e"
  shows "e = NonFinite"
proof -
  let ?gr = "case lambda3 of
               Some l3 \<Rightarrow> ProxOperGroupL2_call (ProxOperGroupL2_init l3 None True)
             | None \<Rightarrow> (\<lambda>W. Inr W)"
  have gr: "?gr V = Inl e \<Longrightarrow> e = NonFinite" for V
    by (cases lambda3) (auto dest: ProxOperGroupL2_call_scalar_error)
  have "k \<in> dom (get_prox_operators I lambda1 lambda2 lambda3)"
    using p by blast
  then consider "k = ''dense''" | l2 where "k = ''sparse''" "lambda2 = Some l2"
    using k by (auto simp: dom_get_prox_operators split: if_splits)
  then show ?thesis
  proof cases
    case 1
    then show ?thesis
      using p e gr by (simp add: get_prox_operators_dense)
  next
    case 2
    then have pe: "p = then_op (ProxOperL1_call (ProxOperL1_init l2 None True)) ?gr"
      using p by (simp add: get_prox_operators_sparse)
    obtain f where f: "ProxOperL1_call (ProxOperL1_init l2 None True) W = Inr (mat_map f W)"
      using ProxOperL1_call_no_mask_total by blast
    show ?thesis
      using e gr [of "mat_map f W"] unfolding pe then_op_def f by simp
  qed
qed

lemma optimizer_step_error: "optimizer_step upd epoch step wd = Inl e \<Longrightarrow> e = CollaboratorError"
  by (auto simp: optimizer_step_def split: option.splits)

lemma optimizer_step_keys: "optimizer_step upd epoch step wd = Inr wd0 \<Longrightarrow> map fst wd0 = map fst wd"
  by (auto simp: optimizer_step_def comp_def split_def split: option.splits)

lemma optimizer_step_total:
  "upd epoch step \<noteq> None \<Longrightarrow> \<exists>wd0. optimizer_step upd epoch step wd = Inr wd0"
  by (auto simp: optimizer_step_def)

lemma apply_prox_ops_error:
  assumes "\<forall>k p W e. prox_ops k = Some p \<longrightarrow> p W = Inl e \<longrightarrow> Q e"
    and "\<forall>k. Q (KeyError k)"
  shows "apply_prox_ops prox_ops ks (wd, nf) = Inl e \<Longrightarrow> Q e"
proof (induction ks arbitrary: wd nf)
  case Nil
  then show ?case by simp
next
  case (Cons k ks)
  then show ?case
    using assms by (auto split: option.splits sum.splits if_splits)
qed

lemma apply_prox_ops_not_NonFinite:
  "apply_prox_ops prox_ops ks (wd, nf) = Inl e \<Longrightarrow> e \<noteq> NonFinite"
proof (induction ks arbitrary: wd nf)
  case Nil
  then show ?case by simp
next
  case (Cons k ks)
  then show ?case
    by (auto split: option.splits sum.splits if_splits)
qed

lemma map_of_fst_Some: "k \<in> set (map fst wd) \<Longrightarrow> \<exists>W. map_of wd k = Some W"
  by (induction wd) auto

lemma apply_prox_ops_keys:
  "apply_prox_ops prox_ops ks (wd, nf) = Inr (wd', nf') \<Longrightarrow> map fst wd' = map fst wd"
proof (induction ks arbitrary: wd nf)
  case Nil
  then show ?case by simp
next
  case (Cons k ks)
  from Cons.prems obtain p W where p: "prox_ops k = Some p" "map_of wd k = Some W"
    by (auto split: option.splits)
  have kin: "k \<in> set (map fst wd)"
    using p(2) by (metis map_of_eq_None_iff option.distinct(1) set_map)
  show ?case
  proof (cases "p W")
    case (Inl e)
    then have "apply_prox_ops prox_ops ks (wd, True) = Inr (wd', nf')"
      using Cons.prems p by (auto split: if_splits)
    then show ?thesis
      by (rule Cons.IH)
  next
    case (Inr W')
    then have "apply_prox_ops prox_ops ks (AList.update k W' wd, nf) = Inr (wd', nf')"
      using Cons.prems p by simp
    then have "map fst wd' = map fst (AList.update k W' wd)"
      by (rule Cons.IH)
    then show ?thesis
      using kin by (simp add: update_keys)
  qed
qed

lemma apply_prox_ops_total:
  assumes "\<forall>k \<in> set ks. k \<in> set (map fst wd)
             \<and> (\<exists>p. prox_ops k = Some p \<and> (\<forall>W e. p W = Inl e \<longrightarrow> e = NonFinite))"
  shows "\<exists>wd' nf'. apply_prox_ops prox_ops ks (wd, nf) = Inr (wd', nf')"
  using assms
proof (induction ks arbitrary: wd nf)
  case Nil
  then show ?case by simp
next
  case (Cons k ks)
  from Cons.prems obtain p where p: "prox_ops k = Some p"
    "\<forall>W e. p W = Inl e \<longrightarrow> e = NonFinite" and k: "k \<in> set (map fst wd)"
    by auto
  from map_of_fst_Some [OF k] obtain W where W: "map_of wd k = Some W"
    by blast
  show ?case
  proof (cases "p W")
    case (Inl e)
    then have "e = NonFinite"
      using p(2) by blast
    moreover have "\<exists>wd' nf'. apply_prox_ops prox_ops ks (wd, True) = Inr (wd', nf')"
      using Cons.prems by (intro Cons.IH) simp
    ultimately show ?thesis
      using p(1) W Inl by simp
  next
    case (Inr W')
    have "map fst (AList.update k W' wd) = map fst wd"
      using k by (simp add: update_keys)
    then have "\<exists>wd' nf'. apply_prox_ops prox_ops ks (AList.update k W' wd, nf) = Inr (wd', nf')"
      using Cons.prems by (intro Cons.IH) simp
    then show ?thesis
      using p(1) W Inr by simp
  qed
qed

lemma run_steps_nf_error:
  assumes "\<forall>k p W e. prox_ops k = Some p \<longrightarrow> p W = Inl e \<longrightarrow> Q e"
    and "\<forall>k. Q (KeyError k)" and "Q CollaboratorError"
  shows "run_steps_nf upd prox_ops epoch steps (evs, wd, nf) = (evs', Inl e) \<Longrightarrow> Q e"
proof (induction steps arbitrary: evs wd nf)
  case Nil
  then show ?case by simp
next
  case (Cons step steps)
  show ?case
  proof (cases "optimizer_step upd epoch step wd")
    case (Inl e0)
    then have "e0 = e"
      using Cons.prems by (simp add: Let_def)
    then show ?thesis
      using Inl optimizer_step_error assms(3) by blast
  next
    case (Inr wd0)
    show ?thesis
    proof (cases "apply_prox_ops prox_ops (map fst wd) (wd0, nf)")
      case (Inl e')
      then have "e' = e"
        using Cons.prems Inr by (simp add: Let_def)
      then show ?thesis
        using Inl apply_prox_ops_error [OF assms(1,2)] by blast
    next
      case ap: (Inr r)
      obtain wd' nf' where r: "r = (wd', nf')"
        by (cases r)
      show ?thesis
        using Cons.prems Inr ap r Cons.IH by (simp add: Let_def)
    qed
  qed
qed

lemma run_steps_nf_keys:
  "run_steps_nf upd prox_ops epoch steps (evs, wd, nf) = (evs', Inr (wd', nf'))
   \<Longrightarrow> map fst wd' = map fst wd"
proof (induction steps arbitrary: evs wd nf)
  case Nil
  then show ?case by simp
next
  case (Cons step steps)
  from Cons.prems obtain wd0 wd1 nf1 evs1
    where os: "optimizer_step upd epoch step wd = Inr wd0"
      and ap: "apply_prox_ops prox_ops (map fst wd) (wd0, nf) = Inr (wd1, nf1)"
      and rest: "run_steps_nf upd prox_ops epoch steps (evs1, wd1, nf1) = (evs', Inr (wd', nf'))"
    by (auto simp: Let_def split: sum.splits)
  have "map fst wd1 = map fst wd"
    using apply_prox_ops_keys [OF ap] optimizer_step_keys [OF os] by simp
  then show ?case
    using Cons.IH [OF rest] by simp
qed

lemma run_steps_nf_total:
  assumes "\<forall>k \<in> set (map fst wd). \<exists>p. prox_ops k = Some p
              \<and> (\<forall>W e. p W = Inl e \<longrightarrow> e = NonFinite)"
    and "\<forall>step \<in> set steps. upd epoch step \<noteq> None"
  shows "\<exists>wd' nf'. run_steps_nf upd prox_ops epoch steps (evs, wd, nf)
                      = (evs @ batch_events epoch steps, Inr (wd', nf'))
           \<and> map fst wd' = map fst wd"
  using assms
proof (induction steps arbitrary: evs wd nf)
  case Nil
  then show ?case by (simp add: batch_events_def)
next
  case (Cons step steps)
  obtain wd0 where os: "optimizer_step upd epoch step wd = Inr wd0"
    using Cons.prems(2) optimizer_step_total [of upd epoch step wd] by auto
  have k0: "map fst wd0 = map fst wd"
    using os by (rule optimizer_step_keys)
  have "\<exists>wd1 nf1. apply_prox_ops prox_ops (map fst wd) (wd0, nf) = Inr (wd1, nf1)"
    using Cons.prems(1) k0 by (intro apply_prox_ops_total) simp
  then obtain wd1 nf1 where ap: "apply_prox_ops prox_ops (map fst wd) (wd0, nf) = Inr (wd1, nf1)"
    by blast
  have keys: "map fst wd1 = map fst wd"
    using apply_prox_ops_keys [OF ap] k0 by simp
  let ?evs1 = "if step mod 100 = 0 then (evs @ [BatchDrawn epoch step]) @ [BatchLossLine epoch step]
               else evs @ [BatchDrawn epoch step]"
  from Cons.IH [of wd1 ?evs1 nf1] Cons.prems keys
  obtain wd' nf' where "run_steps_nf upd prox_ops epoch steps (?evs1, wd1, nf1)
                      = (?evs1 @ batch_events epoch steps, Inr (wd', nf'))" "map fst wd' = map fst wd1"
    by auto
  then show ?case
    using os ap keys by (auto simp: Let_def batch_events_def)
qed

lemma run_steps_nf_not_NonFinite:
  "run_steps_nf upd prox_ops epoch steps (evs, wd, nf) = (evs', Inl e) \<Longrightarrow> e \<noteq> NonFinite"
proof (induction steps arbitrary: evs wd nf)
  case Nil
  then show ?case by simp
next
  case (Cons step steps)
  show ?case
  proof (cases "optimizer_step upd epoch step wd")
    case (Inl e0)
    then have "e0 = e"
      using Cons.prems by (simp add: Let_def)
    then show ?thesis
      using Inl optimizer_step_error by blast
  next
    case (Inr wd0)
    show ?thesis
    proof (cases "apply_prox_ops prox_ops (map fst wd) (wd0, nf)")
      case (Inl e')
      then have "e' = e"
        using Cons.prems Inr by (simp add: Let_def)
      then show ?thesis
        using Inl apply_prox_ops_not_NonFinite by blast
    next
      case ap: (Inr r)
      obtain wd' nf' where r: "r = (wd', nf')"
        by (cases r)
      show ?thesis
        using Cons.prems Inr ap r Cons.IH by (simp add: Let_def)
    qed
  qed
qed

lemma run_steps_Inr:
  "run_steps upd prox_ops epoch steps (evs, wd) = (evs1, Inr wd1)
   \<longleftrightarrow> run_steps_nf upd prox_ops epoch steps (evs, wd, False) = (evs1, Inr (wd1, False))"
  by (auto simp: run_steps_def finite_view_def split: prod.splits sum.splits if_splits)

lemma n_inactive_terms_fst: "\<exists>n. n_inactive_terms wd = (wd, n)"
  by (simp add: n_inactive_terms_def n_inactive_terms_loop_eq)

lemma epoch_diagnostics_error:
  "epoch_diagnostics n epoch wd evs = (evs', Inl e) \<Longrightarrow> e = KeyError ''annotated''"
  by (auto simp: epoch_diagnostics_def Let_def TERMS_KEYS_def split: prod.splits option.splits)

lemma epoch_diagnostics_nf_error:
  "epoch_diagnostics_nf n epoch (wd, nf) evs = (evs', Inl e) \<Longrightarrow> e = KeyError ''annotated''"
  by (auto simp: epoch_diagnostics_nf_def Let_def TERMS_KEYS_def
      split: prod.splits option.splits sum.splits if_splits dest: epoch_diagnostics_error)

lemma epoch_diagnostics_keys:
  "epoch_diagnostics n epoch wd evs = (evs', Inr wd') \<Longrightarrow> wd' = wd"
  using n_inactive_terms_fst [of wd]
  by (auto simp: epoch_diagnostics_def Let_def split: prod.splits option.splits)

lemma epoch_diagnostics_nf_keys:
  "epoch_diagnostics_nf n epoch (wd, nf) evs = (evs', Inr (wd', nf')) \<Longrightarrow> wd' = wd \<and> nf' = nf"
  by (auto simp: epoch_diagnostics_nf_def Let_def
      split: prod.splits option.splits sum.splits if_splits dest: epoch_diagnostics_keys)

lemma epoch_diagnostics_no_annotated:
  assumes "''annotated'' \<notin> set (map fst wd)"
  shows "\<exists>n. epoch_diagnostics n_inact epoch wd evs
               = (evs @ [TermsLine epoch n], Inl (KeyError ''annotated''))"
proof -
  obtain n where n: "n_inactive_terms wd = (wd, n)"
    using n_inactive_terms_fst by blast
  have "map_of wd ''annotated'' = None"
    using assms by (simp add: map_of_eq_None_iff)
  then show ?thesis
    using n by (simp add: epoch_diagnostics_def TERMS_KEYS_def)
qed

lemma epoch_diagnostics_nf_no_annotated:
  assumes "''annotated'' \<notin> set (map fst wd)"
  shows "\<exists>line. epoch_diagnostics_nf n_inact epoch (wd, nf) evs
               = (evs @ [line], Inl (KeyError ''annotated''))
           \<and> ((\<exists>n. line = TermsLine epoch n) \<or> line = TermsLineNonFinite epoch)"
proof (cases nf)
  case True
  have "map_of wd ''annotated'' = None"
    using assms by (simp add: map_of_eq_None_iff)
  then show ?thesis
    using True by (simp add: epoch_diagnostics_nf_def TERMS_KEYS_def)
next
  case False
  obtain n where "epoch_diagnostics n_inact epoch wd evs
               = (evs @ [TermsLine epoch n], Inl (KeyError ''annotated''))"
    using epoch_diagnostics_no_annotated [OF assms] by blast
  then show ?thesis
    using False by (simp add: epoch_diagnostics_nf_def)
qed

lemma run_epochs_nf_error:
  assumes "\<forall>k p W e. prox_ops k = Some p \<longrightarrow> p W = Inl e \<longrightarrow> Q e"
    and "\<forall>k. Q (KeyError k)" and "Q CollaboratorError" and "Q ZeroDivisionError"
  shows "run_epochs_nf upd prox_ops n n_obs batch_size epochs (evs, wd, nf) = (evs', Inl e) \<Longrightarrow> Q e"
proof (induction epochs arbitrary: evs wd nf)
  case Nil
  then show ?case by simp
next
  case (Cons epoch epochs)
  show ?case
  proof (cases "batch_size = 0")
    case True
    then show ?thesis
      using Cons.prems assms(4) by simp
  next
    case bs: False
    obtain evs1 r1 where st: "run_steps_nf upd prox_ops epoch [0..<nat (int n_obs div batch_size)] (evs, wd, nf) = (evs1, r1)"
      by (cases "run_steps_nf upd prox_ops epoch [0..<nat (int n_obs div batch_size)] (evs, wd, nf)")
    show ?thesis
    proof (cases r1)
      case (Inl e1)
      then have "e1 = e"
        using Cons.prems bs st by simp
      then show ?thesis
        using st Inl run_steps_nf_error [OF assms(1,2,3)] by blast
    next
      case (Inr wdnf1)
      obtain wd1 nf1 where w1: "wdnf1 = (wd1, nf1)"
        by (cases wdnf1)
      obtain evs2 r2 where dg: "epoch_diagnostics_nf n epoch (wd1, nf1) (evs1 @ [EpochLossLine epoch]) = (evs2, r2)"
        by (cases "epoch_diagnostics_nf n epoch (wd1, nf1) (evs1 @ [EpochLossLine epoch])")
      show ?thesis
      proof (cases r2)
        case (Inl e2)
        then have "e2 = e"
          using Cons.prems bs st Inr w1 dg by simp
        then show ?thesis
          using dg Inl epoch_diagnostics_nf_error assms(2) by blast
      next
        case r2: (Inr wdnf2)
        obtain wd2 nf2 where w2: "wdnf2 = (wd2, nf2)"
          by (cases wdnf2)
        show ?thesis
          using Cons.prems bs st Inr w1 dg r2 w2 Cons.IH by simp
      qed
    qed
  qed
qed

lemma run_epochs_error:
  assumes "\<forall>k p W e. prox_ops k = Some p \<longrightarrow> p W = Inl e \<longrightarrow> Q e"
    and "\<forall>k. Q (KeyError k)" and "Q CollaboratorError" and "Q ZeroDivisionError"
    and "Q NonFinite"
  shows "run_epochs upd prox_ops n n_obs batch_size epochs (evs, wd) = (evs', Inl e) \<Longrightarrow> Q e"
proof -
  assume r: "run_epochs upd prox_ops n n_obs batch_size epochs (evs, wd) = (evs', Inl e)"
  obtain evs1 r1 where nf: "run_epochs_nf upd prox_ops n n_obs batch_size epochs (evs, wd, False) = (evs1, r1)"
    by (cases "run_epochs_nf upd prox_ops n n_obs batch_size epochs (evs, wd, False)")
  show "Q e"
  proof (cases r1)
    case (Inl e1)
    then have "e1 = e"
      using r nf by (simp add: run_epochs_def finite_view_def)
    then show ?thesis
      using nf Inl run_epochs_nf_error [OF assms(1,2,3,4)] by blast
  next
    case (Inr wdnf)
    then have "e = NonFinite"
      using r nf by (auto simp: run_epochs_def finite_view_def split: prod.splits if_splits)
    then show ?thesis
      using assms(5) by simp
  qed
qed

lemma run_epochs_diagnostics_pass:
  assumes "batch_size \<noteq> 0"
    and "run_steps upd prox_ops epoch [0..<nat (int n_obs div batch_size)] (evs, wd) = (evs1, Inr wd1)"
    and "epoch_diagnostics n_inact epoch wd1 (evs1 @ [EpochLossLine epoch]) = (evs2, Inr wd2)"
  shows "run_epochs upd prox_ops n_inact n_obs batch_size (epoch # epochs) (evs, wd)
           = run_epochs upd prox_ops n_inact n_obs batch_size epochs (evs2, wd2)"
proof -
  have st: "run_steps_nf upd prox_ops epoch [0..<nat (int n_obs div batch_size)] (evs, wd, False)
              = (evs1, Inr (wd1, False))"
    using assms(2) by (simp only: run_steps_Inr)
  have dg: "epoch_diagnostics_nf n_inact epoch (wd1, False) (evs1 @ [EpochLossLine epoch])
              = (evs2, Inr (wd2, False))"
    using assms(3) by (simp add: epoch_diagnostics_nf_def)
  have "run_epochs_nf upd prox_ops n_inact n_obs batch_size (epoch # epochs) (evs, wd, False)
          = run_epochs_nf upd prox_ops n_inact n_obs batch_size epochs (evs2, wd2, False)"
    using assms(1) st dg by simp
  then show ?thesis
    by (simp add: run_epochs_def)
qed

lemma run_epochs_nf_no_annotated:
  assumes "''annotated'' \<notin> set (map fst wd)"
  shows "\<exists>evs' e. run_epochs_nf upd prox_ops n_inact n_obs batch_size (epoch # epochs) (evs, wd, nf)
                     = (evs', Inl e) \<and> e \<noteq> NonFinite"
proof (cases "batch_size = 0")
  case True
  then show ?thesis by simp
next
  case bs: False
  obtain evs1 r1 where st: "run_steps_nf upd prox_ops epoch [0..<nat (int n_obs div batch_size)] (evs, wd, nf) = (evs1, r1)"
    by (cases "run_steps_nf upd prox_ops epoch [0..<nat (int n_obs div batch_size)] (evs, wd, nf)")
  show ?thesis
  proof (cases r1)
    case (Inl e1)
    then have "e1 \<noteq> NonFinite"
      using st run_steps_nf_not_NonFinite by blast
    then show ?thesis
      using bs st Inl by simp
  next
    case (Inr wdnf1)
    obtain wd1 nf1 where w1: "wdnf1 = (wd1, nf1)"
      by (cases wdnf1)
    have "map fst wd1 = map fst wd"
      using st Inr w1 run_steps_nf_keys by blast
    then have "''annotated'' \<notin> set (map fst wd1)"
      using assms by simp
    from epoch_diagnostics_nf_no_annotated [OF this]
    obtain line where "epoch_diagnostics_nf n_inact epoch (wd1, nf1) (evs1 @ [EpochLossLine epoch])
               = ((evs1 @ [EpochLossLine epoch]) @ [line], Inl (KeyError ''annotated''))"
      by blast
    then show ?thesis
      using bs st Inr w1 by simp
  qed
qed

lemma run_epochs_nf_first_diagnostics:
  assumes na: "''annotated'' \<notin> set (map fst wd)" and bs: "batch_size \<noteq> 0"
    and ops: "\<forall>k \<in> set (map fst wd). \<exists>p. prox_ops k = Some p
              \<and> (\<forall>W e. p W = Inl e \<longrightarrow> e = NonFinite)"
    and upd: "\<forall>step \<in> set [0..<nat (int n_obs div batch_size)]. upd epoch step \<noteq> None"
  shows "\<exists>line. run_epochs_nf upd prox_ops n_inact n_obs batch_size (epoch # epochs) (evs, wd, nf)
                  = (evs @ batch_events epoch [0..<nat (int n_obs div batch_size)]
                       @ [EpochLossLine epoch, line],
                     Inl (KeyError ''annotated''))
           \<and> ((\<exists>n. line = TermsLine epoch n) \<or> line = TermsLineNonFinite epoch)"
proof -
  let ?steps = "[0..<nat (int n_obs div batch_size)]"
  from run_steps_nf_total [where wd = wd and prox_ops = prox_ops and steps = ?steps
      and upd = upd and epoch = epoch and evs = evs and nf = nf, OF ops upd]
  obtain wd1 nf1 where st: "run_steps_nf upd prox_ops epoch ?steps (evs, wd, nf)
                      = (evs @ batch_events epoch ?steps, Inr (wd1, nf1))"
    and keys: "map fst wd1 = map fst wd"
    by blast
  have "''annotated'' \<notin> set (map fst wd1)"
    using keys na by simp
  from epoch_diagnostics_nf_no_annotated [OF this]
  obtain line where dg: "epoch_diagnostics_nf n_inact epoch (wd1, nf1)
                     ((evs @ batch_events epoch ?steps) @ [EpochLossLine epoch])
               = (((evs @ batch_events epoch ?steps) @ [EpochLossLine epoch]) @ [line],
                  Inl (KeyError ''annotated''))"
    and line: "(\<exists>n. line = TermsLine epoch n) \<or> line = TermsLineNonFinite epoch"
    by blast
  have "run_epochs_nf upd prox_ops n_inact n_obs batch_size (epoch # epochs) (evs, wd, nf)
                  = (evs @ batch_events epoch ?steps @ [EpochLossLine epoch, line],
                     Inl (KeyError ''annotated''))"
    using bs st dg by simp
  with line show ?thesis
    by (intro exI [of _ line] conjI)
qed

section \<open>The validation before training\<close>

lemma find_missing:
  "\<exists>k \<in> set ks. P k \<Longrightarrow> \<exists>k. find P ks = Some k \<and> k \<in> set ks \<and> P k"
  by (induction ks) auto

lemma find_SomeD: "find P ks = Some k \<Longrightarrow> k \<in> set ks \<and> P k"
  by (induction ks) (auto split: if_splits)

text \<open>
  Claim C5. Whatever coefficients are set, the mapping of \<^verbatim>\<open>get_prox_operators\<close> has an
  entry for \<^verbatim>\<open>'dense'\<close>. \<^verbatim>\<open>train_autoencoder\<close> checks every name in the decoder's weight
  dictionary against the mapping before anything else happens: if a block has no entry,
  the call ends with the ValueError that names a block without entry, with nothing
  printed and no batch drawn, and among the three term types such a block is the
  annotated one with \<open>lambda1\<close> unset or the sparse one with \<open>lambda2\<close> unset. No call ends with a
  ValueError of this file after a batch was drawn or a line printed (an exception that a
  collaborator raises in a batch is a \<open>CollaboratorError\<close>).
\<close>

theorem train_autoencoder_validates_first:
  "''dense'' \<in> dom (get_prox_operators I' lambda1 lambda2 lambda3)
   \<and> ((\<exists>k \<in> set (map fst wd). k \<notin> dom (get_prox_operators (Some I) lambda1 lambda2 lambda3)) \<longrightarrow>
        (\<exists>k \<in> set (map fst wd).
            k \<notin> dom (get_prox_operators (Some I) lambda1 lambda2 lambda3)
          \<and> train_autoencoder I n_obs wd upd batch_size num_epochs lambda1 lambda2 lambda3
              = ([], Inl (ValueError (''Provide regularization coefficient for '' @ k)))
          \<and> (k \<in> set TERMS_KEYS \<longrightarrow>
                k = ''annotated'' \<and> lambda1 = None \<or> k = ''sparse'' \<and> lambda2 = None)))
   \<and> (train_autoencoder I n_obs wd upd batch_size num_epochs lambda1 lambda2 lambda3
         = (evs, Inl (ValueError m)) \<longrightarrow>
        evs = []
      \<and> (\<exists>k \<in> set (map fst wd).
            k \<notin> dom (get_prox_operators (Some I) lambda1 lambda2 lambda3)
          \<and> m = ''Provide regularization coefficient for '' @ k))"
proof -
  let ?ops = "get_prox_operators (Some I) lambda1 lambda2 lambda3"
  let ?train = "train_autoencoder I n_obs wd upd batch_size num_epochs lambda1 lambda2 lambda3"
  have dense: "''dense'' \<in> dom (get_prox_operators I' lambda1 lambda2 lambda3)"
    by (simp add: dom_get_prox_operators)
  have missing: "\<exists>k \<in> set (map fst wd).
            k \<notin> dom ?ops
          \<and> ?train = ([], Inl (ValueError (''Provide regularization coefficient for '' @ k)))
          \<and> (k \<in> set TERMS_KEYS \<longrightarrow>
                k = ''annotated'' \<and> lambda1 = None \<or> k = ''sparse'' \<and> lambda2 = None)"
    if ex: "\<exists>k \<in> set (map fst wd). k \<notin> dom ?ops"
  proof -
    obtain k where k: "find (\<lambda>k. k \<notin> dom ?ops) (map fst wd) = Some k"
      "k \<in> set (map fst wd)" "k \<notin> dom ?ops"
      using find_missing [OF ex] by blast
    have tr: "?train = ([], Inl (ValueError (''Provide regularization coefficient for '' @ k)))"
      using k(1) by (simp add: train_autoencoder_def Let_def)
    have "k = ''annotated'' \<and> lambda1 = None \<or> k = ''sparse'' \<and> lambda2 = None"
      if kt: "k \<in> set TERMS_KEYS"
      using kt k(3) by (auto simp: dom_get_prox_operators TERMS_KEYS_def split: if_splits)
    then show ?thesis
      using k tr by blast
  qed
  have ops: "\<forall>k p W e. ?ops k = Some p \<longrightarrow> p W = Inl e \<longrightarrow> (\<forall>m. e \<noteq> ValueError m)"
    using get_prox_operators_error by blast
  have ep: "\<forall>m. e \<noteq> ValueError m"
    if "run_epochs upd ?ops n n_obs batch_size epochs ([], wd) = (evs', Inl e)"
    for n epochs evs' e
    using run_epochs_error [OF ops _ _ _ _ that] by simp
  have early: "evs = [] \<and> (\<exists>k \<in> set (map fst wd). k \<notin> dom ?ops
          \<and> m = ''Provide regularization coefficient for '' @ k)"
    if res: "?train = (evs, Inl (ValueError m))"
  proof (cases "find (\<lambda>k. k \<notin> dom ?ops) (map fst wd)")
    case None
    then have "?train = ([], Inl RuntimeError)
      \<or> ?train = run_epochs upd ?ops (n_inact_genes_of I) n_obs batch_size [0..<nat num_epochs] ([], wd)"
      by (simp add: train_autoencoder_def Let_def)
    then have "run_epochs upd ?ops (n_inact_genes_of I) n_obs batch_size [0..<nat num_epochs] ([], wd)
                 = (evs, Inl (ValueError m))"
      using res by auto
    then have False
      using ep by blast
    then show ?thesis ..
  next
    case (Some k)
    then have "?train = ([], Inl (ValueError (''Provide regularization coefficient for '' @ k)))"
      by (simp add: train_autoencoder_def Let_def)
    then have "evs = []" and "m = ''Provide regularization coefficient for '' @ k"
      using res by simp_all
    moreover have "k \<in> set (map fst wd)" and "k \<notin> dom ?ops"
      using find_SomeD [OF Some] by blast+
    ultimately show ?thesis
      by blast
  qed
  show ?thesis
    using dense missing early by blast
qed

theorem train_autoencoder_validates_first_witness:
  "''dense'' \<in> dom (get_prox_operators None None None None)
   \<and> ''annotated'' \<in> set (map fst [(''annotated'', \<lparr>ncols = 1, rows = [[1], [2::real]]\<rparr>),
                                      (''dense'', \<lparr>ncols = 1, rows = [[3], [4]]\<rparr>)])
   \<and> ''annotated'' \<notin> dom (get_prox_operators (Some \<lparr>ncols = 1, rows = [[1], [0]]\<rparr>)
                               None None (Some 1))
   \<and> train_autoencoder \<lparr>ncols = 1, rows = [[1], [0]]\<rparr> 4
         [(''annotated'', \<lparr>ncols = 1, rows = [[1], [2]]\<rparr>),
          (''dense'', \<lparr>ncols = 1, rows = [[3], [4]]\<rparr>)]
         lr0_optimizer 2 3 None None (Some 1)
       = ([], Inl (ValueError ''Provide regularization coefficient for annotated''))"
proof -
  let ?wd = "[(''annotated'', \<lparr>ncols = 1, rows = [[1], [2::real]]\<rparr>),
              (''dense'', \<lparr>ncols = 1, rows = [[3], [4]]\<rparr>)]"
  let ?I = "\<lparr>ncols = 1, rows = [[1], [0::int]]\<rparr>"
  let ?ops = "get_prox_operators (Some ?I) None None (Some 1)"
  have dom: "dom ?ops = {''dense''}"
    by (simp add: dom_get_prox_operators)
  have ex: "\<exists>k \<in> set (map fst ?wd). k \<notin> dom ?ops"
    unfolding dom by simp
  from train_autoencoder_validates_first [where I' = None and ?lambda1.0 = None
      and ?lambda2.0 = None and ?lambda3.0 = "Some 1" and wd = ?wd and I = ?I and n_obs = 4
      and upd = lr0_optimizer and batch_size = 2 and num_epochs = 3] ex
  obtain k where k: "k \<in> set (map fst ?wd)" "k \<notin> dom ?ops"
    "train_autoencoder ?I 4 ?wd lr0_optimizer 2 3 None None (Some 1)
       = ([], Inl (ValueError (''Provide regularization coefficient for '' @ k)))"
    by blast
  have "k = ''annotated''"
    using k(1,2) unfolding dom by auto
  then show ?thesis
    using k(3) dom by (simp add: dom_get_prox_operators)
qed


lemma n_deact_genes_of_count:
  "n_deact_genes_of W = real (length (filter (\<lambda>w. w = 0) (concat (rows W))))"
proof -
  have "sum_list (map (\<lambda>r. sum_list (map (\<lambda>w. b2r (\<not> (\<bar>w\<bar> > 0))) r)) rs)
          = real (length (filter (\<lambda>w. w = 0) (concat rs)))" for rs :: "real list list"
    by (induction rs) (simp_all add: sum_list_b2r)
  then show ?thesis
    by (simp add: n_deact_genes_of_def)
qed

lemma n_inact_genes_of_sum:
  "n_inact_genes_of I = sum_list (map (\<lambda>x. 1 - x) (concat (rows I)))"
proof -
  have "sum_list (map (\<lambda>r. sum_list (map (\<lambda>x. 1 - x) r)) rs)
          = sum_list (map (\<lambda>x. 1 - x) (concat rs))" for rs :: "int list list"
    by (induction rs) simp_all
  then show ?thesis
    by (simp add: n_inact_genes_of_def)
qed

lemma sum_complement_binary:
  "\<forall>x \<in> set xs. x = 0 \<or> x = 1 \<Longrightarrow>
   sum_list (map (\<lambda>x. 1 - x) xs) = int (length (filter (\<lambda>x. x = 0) xs))"
  for xs :: "int list"
  by (induction xs) auto

lemma epoch_diagnostics_annotated:
  assumes "map_of wd ''annotated'' = Some W"
  shows "\<exists>n. epoch_diagnostics n_inact epoch wd evs
               = (evs @ [TermsLine epoch n,
                         ShareLine epoch (safe_div (n_deact_genes_of W) (real_of_int n_inact))],
                  Inr wd)"
proof -
  obtain n where n: "n_inactive_terms wd = (wd, n)"
    using n_inactive_terms_fst by blast
  show ?thesis
    using n assms by (simp add: epoch_diagnostics_def TERMS_KEYS_def)
qed

section \<open>The share of deactivated entries\<close>

lemma example_share_terms:
  "n_inactive_terms [(''annotated'', \<lparr>ncols = 2, rows = [[0, 1/2], [1/2, 1]]\<rparr>)]
     = ([(''annotated'', \<lparr>ncols = 2, rows = [[0, 1/2], [1/2, 1]]\<rparr>)], 0)"
  by (simp add: n_inactive_terms_def n_inactive_terms_loop_eq py_int_def col_norm_def l2norm_def col_def
      upt_rec [of _ "numeral _"] upt_rec [of _ "Suc _"] upt_rec [of 0 1] numeral_2_eq_2
      power2_eq_square add_nonneg_eq_0_iff)


lemma example_share_step:
  "apply_prox_ops (get_prox_operators (Some \<lparr>ncols = 2, rows = [[0, 0], [0, 1]]\<rparr>) (Some (1/2)) None None)
     [''annotated'']
     ([(''annotated'', \<lparr>ncols = 2, rows = [[0, 1], [1, 1]]\<rparr>)], False)
   = Inr ([(''annotated'', \<lparr>ncols = 2, rows = [[0, 1/2], [1/2, 1]]\<rparr>)], False)"
  by (simp add: get_prox_operators_annotated then_op_def
      mk_mat_def nrows_def entry_def
      ProxOperL1_call_def ProxOperL1_init_def l1_update_def broadcast_to_def
      mat_map_def Let_def mat_map2_def b2r_def
      upt_rec [of _ "numeral _"] upt_rec [of _ "Suc _"] upt_rec [of 0 1] numeral_2_eq_2)

lemma example_share_optimizer_step:
  "optimizer_step lr0_optimizer 0 0 [(''annotated'', \<lparr>ncols = 2, rows = [[0, 1], [1, 1]]\<rparr>)]
     = Inr [(''annotated'', \<lparr>ncols = 2, rows = [[0, 1], [1, 1]]\<rparr>)]"
  by (simp add: optimizer_step_def lr0_optimizer_def mk_mat_def nrows_def entry_def
      upt_rec [of _ "numeral _"] upt_rec [of _ "Suc _"] upt_rec [of 0 1] numeral_2_eq_2)

text \<open>
  Claim C8 as it is stated fails: for the annotated block and the annotation matrix
  below the line that is printed shows the share 1/3 (one zero entry of the block over
  three zero entries of the matrix), while no row of the block is zero and one gene has
  no annotation, so that the share of genes is 0.
\<close>

theorem epoch_share_is_not_share_of_genes:
  "epoch_diagnostics (n_inact_genes_of \<lparr>ncols = 2, rows = [[0, 0], [0, 1]]\<rparr>) 0
     [(''annotated'', \<lparr>ncols = 2, rows = [[0, 1/2], [1/2, 1]]\<rparr>)] []
     = ([TermsLine 0 0, ShareLine 0 (Some (1/3))],
        Inr [(''annotated'', \<lparr>ncols = 2, rows = [[0, 1/2], [1/2, 1]]\<rparr>)])
   \<and> spec_share \<lparr>ncols = 2, rows = [[0, 1/2], [1/2, 1]]\<rparr> \<lparr>ncols = 2, rows = [[0, 0], [0, 1]]\<rparr>
       = Some 0"
  by (simp add: epoch_diagnostics_def example_share_terms TERMS_KEYS_def n_inact_genes_of_def
      n_deact_genes_of_def b2r_def safe_div_def spec_share_def)

text \<open>
  Claim C8, as the code has it. At the end of every epoch whose batches succeed, with an
  annotated block \<open>W\<close> in the decoder, the loop prints the loss line, the number of
  deactivated terms and then the share, and goes on with the next epoch. The share is
  the number of entries of \<open>W\<close> that are exactly zero, divided by the sum of \<open>1 - I[i,j]\<close> over
  all entries of the annotation matrix, which for a matrix of zeros and ones is the
  number of its zero entries; it counts entries (pairs of gene and term), not genes.
\<close>

theorem epoch_share_counts_zero_entries:
  "batch_size \<noteq> 0
   \<Longrightarrow> run_steps upd prox_ops epoch [0..<nat (int n_obs div batch_size)] (evs, wd) = (evs1, Inr wd1)
   \<Longrightarrow> map_of wd1 ''annotated'' = Some W
   \<Longrightarrow> (\<exists>n. run_epochs upd prox_ops (n_inact_genes_of I) n_obs batch_size (epoch # epochs) (evs, wd)
            = run_epochs upd prox_ops (n_inact_genes_of I) n_obs batch_size epochs
                (evs1 @ [EpochLossLine epoch, TermsLine epoch n,
                         ShareLine epoch
                           (safe_div (real (length (filter (\<lambda>w. w = 0) (concat (rows W)))))
                                     (real_of_int (n_inact_genes_of I)))],
                 wd1))
     \<and> n_inact_genes_of I = sum_list (map (\<lambda>x. 1 - x) (concat (rows I)))
     \<and> ((\<forall>x \<in> set (concat (rows I)). x = 0 \<or> x = 1) \<longrightarrow>
          n_inact_genes_of I = int (length (filter (\<lambda>x. x = 0) (concat (rows I)))))"
proof -
  assume bs: "batch_size \<noteq> 0"
    and st: "run_steps upd prox_ops epoch [0..<nat (int n_obs div batch_size)] (evs, wd) = (evs1, Inr wd1)"
    and W: "map_of wd1 ''annotated'' = Some W"
  let ?sh = "ShareLine epoch (safe_div (real (length (filter (\<lambda>w. w = 0) (concat (rows W)))))
                                     (real_of_int (n_inact_genes_of I)))"
  from epoch_diagnostics_annotated [OF W, of "n_inact_genes_of I" epoch "evs1 @ [EpochLossLine epoch]"]
  obtain n where n: "epoch_diagnostics (n_inact_genes_of I) epoch wd1 (evs1 @ [EpochLossLine epoch])
               = ((evs1 @ [EpochLossLine epoch]) @ [TermsLine epoch n, ?sh], Inr wd1)"
    by (auto simp: n_deact_genes_of_count)
  have "run_epochs upd prox_ops (n_inact_genes_of I) n_obs batch_size (epoch # epochs) (evs, wd)
          = run_epochs upd prox_ops (n_inact_genes_of I) n_obs batch_size epochs
              ((evs1 @ [EpochLossLine epoch]) @ [TermsLine epoch n, ?sh], wd1)"
    using bs st n by (rule run_epochs_diagnostics_pass)
  then have "\<exists>n. run_epochs upd prox_ops (n_inact_genes_of I) n_obs batch_size (epoch # epochs) (evs, wd)
            = run_epochs upd prox_ops (n_inact_genes_of I) n_obs batch_size epochs
                (evs1 @ [EpochLossLine epoch, TermsLine epoch n, ?sh], wd1)"
    by (intro exI [of _ n]) simp
  moreover have "(\<forall>x \<in> set (concat (rows I)). x = 0 \<or> x = 1) \<longrightarrow>
          n_inact_genes_of I = int (length (filter (\<lambda>x. x = 0) (concat (rows I))))"
    using sum_complement_binary [of "concat (rows I)"] by (simp only: n_inact_genes_of_sum) blast
  ultimately show ?thesis
    using n_inact_genes_of_sum [of I] by (intro conjI)
qed


theorem epoch_share_counts_zero_entries_witness:
  "(2::int) \<noteq> 0
   \<and> run_steps lr0_optimizer
         (get_prox_operators (Some \<lparr>ncols = 2, rows = [[0, 0], [0, 1]]\<rparr>) (Some (1/2)) None None)
         0 [0..<nat (int 2 div 2)] ([], [(''annotated'', \<lparr>ncols = 2, rows = [[0, 1], [1, 1]]\<rparr>)])
       = ([BatchDrawn 0 0, BatchLossLine 0 0],
          Inr [(''annotated'', \<lparr>ncols = 2, rows = [[0, 1/2], [1/2, 1]]\<rparr>)])
   \<and> map_of [(''annotated'', \<lparr>ncols = 2, rows = [[0, 1/2], [1/2, 1::real]]\<rparr>)] ''annotated''
       = Some \<lparr>ncols = 2, rows = [[0, 1/2], [1/2, 1]]\<rparr>
   \<and> run_epochs lr0_optimizer
         (get_prox_operators (Some \<lparr>ncols = 2, rows = [[0, 0], [0, 1]]\<rparr>) (Some (1/2)) None None)
         (n_inact_genes_of \<lparr>ncols = 2, rows = [[0, 0], [0, 1]]\<rparr>) 2 2 [0]
         ([], [(''annotated'', \<lparr>ncols = 2, rows = [[0, 1], [1, 1]]\<rparr>)])
       = ([BatchDrawn 0 0, BatchLossLine 0 0, EpochLossLine 0, TermsLine 0 0, ShareLine 0 (Some (1/3))],
          Inr [(''annotated'', \<lparr>ncols = 2, rows = [[0, 1/2], [1/2, 1]]\<rparr>)])
   \<and> n_inact_genes_of \<lparr>ncols = 2, rows = [[0, 0], [0, 1]]\<rparr> = 3"
proof -
  let ?I = "\<lparr>ncols = 2, rows = [[0, 0], [0, 1::int]]\<rparr>"
  let ?ops = "get_prox_operators (Some ?I) (Some (1/2)) None None"
  let ?wd = "[(''annotated'', \<lparr>ncols = 2, rows = [[0, 1], [1, 1::real]]\<rparr>)]"
  let ?W = "\<lparr>ncols = 2, rows = [[0, 1/2], [1/2, 1::real]]\<rparr>"
  have steps: "[0..<nat (int 2 div 2)] = [0]"
    by simp
  have "run_steps_nf lr0_optimizer ?ops 0 [0] ([], ?wd, False)
              = ([BatchDrawn 0 0, BatchLossLine 0 0], Inr ([(''annotated'', ?W)], False))"
    by (simp add: example_share_optimizer_step example_share_step Let_def
        del: apply_prox_ops.simps)
  then have rs: "run_steps lr0_optimizer ?ops 0 [0..<nat (int 2 div 2)] ([], ?wd)
              = ([BatchDrawn 0 0, BatchLossLine 0 0], Inr [(''annotated'', ?W)])"
    unfolding steps by (simp only: run_steps_Inr)
  have W: "map_of [(''annotated'', ?W)] ''annotated'' = Some ?W"
    by simp
  have ni: "n_inact_genes_of ?I = 3"
    by (simp add: n_inact_genes_of_def)
  have bs: "(2::int) \<noteq> 0"
    by simp
  from epoch_share_counts_zero_entries [OF bs rs W, of ?I "[]"]
  obtain n where n: "run_epochs lr0_optimizer ?ops (n_inact_genes_of ?I) 2 2 [0] ([], ?wd)
            = run_epochs lr0_optimizer ?ops (n_inact_genes_of ?I) 2 2 []
                ([BatchDrawn 0 0, BatchLossLine 0 0]
                   @ [EpochLossLine 0, TermsLine 0 n,
                      ShareLine 0 (safe_div (real (length (filter (\<lambda>w. w = 0) (concat (rows ?W)))))
                                     (real_of_int (n_inact_genes_of ?I)))],
                 [(''annotated'', ?W)])"
    by blast
  have direct: "epoch_diagnostics (n_inact_genes_of ?I) 0 [(''annotated'', ?W)]
                  ([BatchDrawn 0 0, BatchLossLine 0 0] @ [EpochLossLine 0])
                = ([BatchDrawn 0 0, BatchLossLine 0 0, EpochLossLine 0, TermsLine 0 0,
                    ShareLine 0 (Some (1/3))], Inr [(''annotated'', ?W)])"
    by (simp add: epoch_diagnostics_def example_share_terms TERMS_KEYS_def ni
        n_deact_genes_of_def b2r_def safe_div_def)
  have "run_epochs lr0_optimizer ?ops (n_inact_genes_of ?I) 2 2 [0] ([], ?wd)
          = run_epochs lr0_optimizer ?ops (n_inact_genes_of ?I) 2 2 []
              ([BatchDrawn 0 0, BatchLossLine 0 0, EpochLossLine 0, TermsLine 0 0,
                ShareLine 0 (Some (1/3))], [(''annotated'', ?W)])"
    by (rule run_epochs_diagnostics_pass [OF bs rs direct])
  then show ?thesis
    using rs W ni n by (simp add: run_epochs_def finite_view_def)
qed

section \<open>Training without an annotated block\<close>

text \<open>
  Claim C9. The diagnostics at the end of an epoch look the block
  \<^verbatim>\<open>weight_dict[TERMS_KEYS[0]]\<close> up without a test: for a decoder without an annotated block
  they raise the KeyError right after the line of deactivated terms, in every epoch and
  whatever was printed before. So a run of \<^verbatim>\<open>train_autoencoder\<close> over at least one epoch (the
  claim speaks of the first epoch) never returns for such a decoder, it ends in an
  exception. When the validation passes, the batch size is positive and no collaborator
  raises in a batch of the first epoch, that exception is the KeyError of the first
  epoch's diagnostics, after all batches of the epoch, its loss line and its line of
  deactivated terms. This holds for all values of the coefficients, also where a
  division by zero has left \<open>inf\<close> or \<open>nan\<close> in the weights. The constructor builds such
  decoders (see the example below).
\<close>

theorem train_autoencoder_without_annotated_block:
  "''annotated'' \<notin> set (map fst wd) \<Longrightarrow> 0 < num_epochs \<Longrightarrow>
   (\<exists>n. epoch_diagnostics n_inact epoch wd printed
          = (printed @ [TermsLine epoch n], Inl (KeyError ''annotated'')))
   \<and> (\<exists>evs e. train_autoencoder I n_obs wd upd batch_size num_epochs lambda1 lambda2 lambda3
                = (evs, Inl e) \<and> e \<noteq> NonFinite)
   \<and> ((\<forall>k \<in> set (map fst wd). k \<in> dom (get_prox_operators (Some I) lambda1 lambda2 lambda3))
        \<and> 0 < batch_size
        \<and> (\<forall>step \<in> set [0..<nat (int n_obs div batch_size)]. upd 0 step \<noteq> None) \<longrightarrow>
       (\<exists>line. train_autoencoder I n_obs wd upd batch_size num_epochs lambda1 lambda2 lambda3
                 = (batch_events 0 [0..<nat (int n_obs div batch_size)] @ [EpochLossLine 0, line],
                    Inl (KeyError ''annotated''))
          \<and> ((\<exists>n. line = TermsLine 0 n) \<or> line = TermsLineNonFinite 0)))"
proof -
  assume na: "''annotated'' \<notin> set (map fst wd)" and ne: "0 < num_epochs"
  let ?ops = "get_prox_operators (Some I) lambda1 lambda2 lambda3"
  let ?train = "train_autoencoder I n_obs wd upd batch_size num_epochs lambda1 lambda2 lambda3"
  let ?n = "n_inact_genes_of I"
  let ?steps = "[0..<nat (int n_obs div batch_size)]"
  have ep: "[0..<nat num_epochs] = 0 # [1..<nat num_epochs]"
    using ne by (simp add: upt_rec)
  have lookup: "\<exists>n. epoch_diagnostics n_inact epoch wd printed
          = (printed @ [TermsLine epoch n], Inl (KeyError ''annotated''))"
    using na by (rule epoch_diagnostics_no_annotated)
  have fails: "\<exists>evs e. ?train = (evs, Inl e) \<and> e \<noteq> NonFinite"
  proof (cases "find (\<lambda>k. k \<notin> dom ?ops) (map fst wd)")
    case (Some k)
    then show ?thesis
      by (simp add: train_autoencoder_def Let_def)
  next
    case None
    show ?thesis
    proof (cases "batch_size < 0")
      case True
      then show ?thesis
        using None by (simp add: train_autoencoder_def Let_def)
    next
      case False
      then have tr: "?train = finite_view (run_epochs_nf upd ?ops ?n n_obs batch_size
                                (0 # [1..<nat num_epochs]) ([], wd, False))"
        using None ep by (simp add: train_autoencoder_def run_epochs_def Let_def)
      obtain evs e where "run_epochs_nf upd ?ops ?n n_obs batch_size
                                (0 # [1..<nat num_epochs]) ([], wd, False) = (evs, Inl e)"
        and "e \<noteq> NonFinite"
        using run_epochs_nf_no_annotated [OF na] by blast
      then have "?train = (evs, Inl e) \<and> e \<noteq> NonFinite"
        unfolding tr by (simp add: finite_view_def)
      then show ?thesis
        by blast
    qed
  qed
  have diag: "\<exists>line. ?train = (batch_events 0 ?steps @ [EpochLossLine 0, line],
                    Inl (KeyError ''annotated''))
          \<and> ((\<exists>n. line = TermsLine 0 n) \<or> line = TermsLineNonFinite 0)"
    if val: "\<forall>k \<in> set (map fst wd). k \<in> dom ?ops" and bs: "0 < batch_size"
      and up: "\<forall>step \<in> set ?steps. upd 0 step \<noteq> None"
  proof -
    have "find (\<lambda>k. k \<notin> dom ?ops) (map fst wd) = None"
      using val by (simp add: find_None_iff)
    then have tr: "?train = finite_view (run_epochs_nf upd ?ops ?n n_obs batch_size
                                (0 # [1..<nat num_epochs]) ([], wd, False))"
      using bs ep by (simp add: train_autoencoder_def run_epochs_def Let_def)
    have ops: "\<forall>k \<in> set (map fst wd). \<exists>p. ?ops k = Some p
              \<and> (\<forall>W e. p W = Inl e \<longrightarrow> e = NonFinite)"
    proof
      fix k assume k: "k \<in> set (map fst wd)"
      then obtain p where p: "?ops k = Some p"
        using val by blast
      have "k \<noteq> ''annotated''"
        using k na by blast
      then show "\<exists>p. ?ops k = Some p \<and> (\<forall>W e. p W = Inl e \<longrightarrow> e = NonFinite)"
        using p get_prox_operators_unmasked_error [OF p] by blast
    qed
    have bs0: "batch_size \<noteq> 0"
      using bs by simp
    from run_epochs_nf_first_diagnostics [where wd = wd and batch_size = batch_size
        and prox_ops = ?ops and n_obs = n_obs and upd = upd and epoch = 0 and n_inact = ?n
        and epochs = "[1..<nat num_epochs]" and evs = "[]" and nf = False, OF na bs0 ops up]
    obtain line where r: "run_epochs_nf upd ?ops ?n n_obs batch_size (0 # [1..<nat num_epochs]) ([], wd, False)
                  = ([] @ batch_events 0 ?steps @ [EpochLossLine 0, line], Inl (KeyError ''annotated''))"
      and line: "(\<exists>n. line = TermsLine 0 n) \<or> line = TermsLineNonFinite 0"
      by blast
    have "?train = (batch_events 0 ?steps @ [EpochLossLine 0, line], Inl (KeyError ''annotated''))"
      unfolding tr r by (simp add: finite_view_def)
    with line show ?thesis
      by (intro exI [of _ line] conjI)
  qed
  have "(\<forall>k \<in> set (map fst wd). k \<in> dom ?ops) \<and> 0 < batch_size
          \<and> (\<forall>step \<in> set ?steps. upd 0 step \<noteq> None) \<longrightarrow>
        (\<exists>line. ?train = (batch_events 0 ?steps @ [EpochLossLine 0, line],
                    Inl (KeyError ''annotated''))
          \<and> ((\<exists>n. line = TermsLine 0 n) \<or> line = TermsLineNonFinite 0))"
  proof
    assume h: "(\<forall>k \<in> set (map fst wd). k \<in> dom ?ops) \<and> 0 < batch_size
          \<and> (\<forall>step \<in> set ?steps. upd 0 step \<noteq> None)"
    show "\<exists>line. ?train = (batch_events 0 ?steps @ [EpochLossLine 0, line],
                    Inl (KeyError ''annotated''))
          \<and> ((\<exists>n. line = TermsLine 0 n) \<or> line = TermsLineNonFinite 0)"
      by (rule diag [OF h [THEN conjunct1] h [THEN conjunct2, THEN conjunct1]
            h [THEN conjunct2, THEN conjunct2]])
  qed
  with lookup fails show ?thesis
    by (intro conjI)
qed

lemma run_epochs_nf_diagnostics_fail:
  assumes "batch_size \<noteq> 0"
    and "run_steps_nf upd prox_ops epoch [0..<nat (int n_obs div batch_size)] (evs, wd, nf)
           = (evs1, Inr (wd1, nf1))"
    and "epoch_diagnostics_nf n_inact epoch (wd1, nf1) (evs1 @ [EpochLossLine epoch]) = (evs2, Inl e)"
  shows "run_epochs_nf upd prox_ops n_inact n_obs batch_size (epoch # epochs) (evs, wd, nf)
           = (evs2, Inl e)"
  using assms by simp

lemma init_sparse_dense_example:
  "CompositeLinearDecoder_init 1 None (Some 2) (Some 2) (const_randn 2)
     = Inr [(''sparse'', \<lparr>ncols = 2, rows = [[1, 1]]\<rparr>), (''dense'', \<lparr>ncols = 2, rows = [[1, 1]]\<rparr>)]"
proof -
  have "sqrt 4 = 2"
    using real_sqrt_abs [of 2] by simp
  then show ?thesis
    by (simp add: CompositeLinearDecoder_init_def TERMS_KEYS_def Let_def mk_mat_def const_randn_def
        upt_rec [of _ "numeral _"] upt_rec [of _ "Suc _"] upt_rec [of 0 1])
qed

lemma example_optimizer_step:
  "optimizer_step lr0_optimizer epoch step
     [(''sparse'', \<lparr>ncols = 2, rows = [[a, b]]\<rparr>), (''dense'', \<lparr>ncols = 2, rows = [[c, d]]\<rparr>)]
   = Inr [(''sparse'', \<lparr>ncols = 2, rows = [[a, b]]\<rparr>), (''dense'', \<lparr>ncols = 2, rows = [[c, d]]\<rparr>)]"
  by (simp add: optimizer_step_def lr0_optimizer_def mk_mat_def nrows_def entry_def
      upt_rec [of _ "numeral _"] upt_rec [of _ "Suc _"] upt_rec [of 0 1] numeral_2_eq_2)

lemma example_step_first:
  "apply_prox_ops (get_prox_operators I None (Some 1) (Some 1))
     [''sparse'', ''dense'']
     ([(''sparse'', \<lparr>ncols = 2, rows = [[1, 1]]\<rparr>), (''dense'', \<lparr>ncols = 2, rows = [[1, 1]]\<rparr>)], False)
   = Inr ([(''sparse'', \<lparr>ncols = 2, rows = [[0, 0]]\<rparr>), (''dense'', \<lparr>ncols = 2, rows = [[0, 0]]\<rparr>)], False)"
  by (simp add: get_prox_operators_sparse get_prox_operators_dense then_op_def
      ProxOperL1_call_no_mask
      mat_map_def expand_coeff_def ProxOperGroupL2_init_def col_norm_def
      l2norm_def col_def ProxOperGroupL2_call_def norm_dim0_def Let_def div_vec_def
      safe_div_def div_rowvec_def mul_rowvec_def mat_map2_def b2r_def
      upt_rec [of _ "numeral _"] upt_rec [of _ "Suc _"] upt_rec [of 0 1] numeral_2_eq_2)

lemma example_step_second:
  "apply_prox_ops (get_prox_operators I None (Some 1) (Some 1))
     [''sparse'', ''dense'']
     ([(''sparse'', \<lparr>ncols = 2, rows = [[0, 0]]\<rparr>), (''dense'', \<lparr>ncols = 2, rows = [[0, 0]]\<rparr>)], False)
   = Inr ([(''sparse'', \<lparr>ncols = 2, rows = [[0, 0]]\<rparr>), (''dense'', \<lparr>ncols = 2, rows = [[0, 0]]\<rparr>)], False)"
  by (simp add: get_prox_operators_sparse get_prox_operators_dense then_op_def
      ProxOperL1_call_no_mask
      mat_map_def expand_coeff_def ProxOperGroupL2_init_def col_norm_def
      l2norm_def col_def ProxOperGroupL2_call_def norm_dim0_def Let_def div_vec_def
      safe_div_def div_rowvec_def mul_rowvec_def mat_map2_def b2r_def
      upt_rec [of _ "numeral _"] upt_rec [of _ "Suc _"] upt_rec [of 0 1] numeral_2_eq_2)

lemma example_step_zero_threshold:
  "apply_prox_ops (get_prox_operators I None (Some 1) (Some 0))
     [''sparse'', ''dense'']
     ([(''sparse'', \<lparr>ncols = 2, rows = [[1, 1]]\<rparr>), (''dense'', \<lparr>ncols = 2, rows = [[1, 1]]\<rparr>)], nf)
   = Inr ([(''sparse'', \<lparr>ncols = 2, rows = [[1, 1]]\<rparr>), (''dense'', \<lparr>ncols = 2, rows = [[1, 1]]\<rparr>)], True)"
  by (simp add: get_prox_operators_sparse get_prox_operators_dense then_op_def
      ProxOperL1_call_no_mask
      mat_map_def expand_coeff_def ProxOperGroupL2_init_def col_norm_def
      l2norm_def col_def ProxOperGroupL2_call_def norm_dim0_def Let_def div_vec_def
      safe_div_def div_rowvec_def mul_rowvec_def mat_map2_def b2r_def
      upt_rec [of _ "numeral _"] upt_rec [of _ "Suc _"] upt_rec [of 0 1] numeral_2_eq_2)

lemma example_inactive_terms:
  "n_inactive_terms [(''sparse'', \<lparr>ncols = 2, rows = [[0, 0]]\<rparr>), (''dense'', \<lparr>ncols = 2, rows = [[0, 0]]\<rparr>)]
     = ([(''sparse'', \<lparr>ncols = 2, rows = [[0, 0]]\<rparr>), (''dense'', \<lparr>ncols = 2, rows = [[0, 0]]\<rparr>)], 4)"
  by (simp add: n_inactive_terms_def n_inactive_terms_loop_eq py_int_def col_norm_def l2norm_def col_def
      upt_rec [of _ "numeral _"] upt_rec [of _ "Suc _"] upt_rec [of 0 1] numeral_2_eq_2)

theorem train_autoencoder_without_annotated_block_witness:
  "CompositeLinearDecoder_init 1 None (Some 2) (Some 2) (const_randn 2)
     = Inr [(''sparse'', \<lparr>ncols = 2, rows = [[1, 1]]\<rparr>), (''dense'', \<lparr>ncols = 2, rows = [[1, 1]]\<rparr>)]
   \<and> ''annotated'' \<notin> set (map fst [(''sparse'', \<lparr>ncols = 2, rows = [[1, 1::real]]\<rparr>),
                                       (''dense'', \<lparr>ncols = 2, rows = [[1, 1]]\<rparr>)])
   \<and> (0::int) < 1
   \<and> train_autoencoder \<lparr>ncols = 1, rows = [[0]]\<rparr> 4
         [(''sparse'', \<lparr>ncols = 2, rows = [[1, 1]]\<rparr>), (''dense'', \<lparr>ncols = 2, rows = [[1, 1]]\<rparr>)]
         lr0_optimizer 2 1 None (Some 1) (Some 1)
       = ([BatchDrawn 0 0, BatchLossLine 0 0, BatchDrawn 0 1, EpochLossLine 0, TermsLine 0 4],
          Inl (KeyError ''annotated''))
   \<and> train_autoencoder \<lparr>ncols = 1, rows = [[0]]\<rparr> 4
         [(''sparse'', \<lparr>ncols = 2, rows = [[1, 1]]\<rparr>), (''dense'', \<lparr>ncols = 2, rows = [[1, 1]]\<rparr>)]
         lr0_optimizer 2 1 None (Some 1) (Some 0)
       = ([BatchDrawn 0 0, BatchLossLine 0 0, BatchDrawn 0 1, EpochLossLine 0, TermsLineNonFinite 0],
          Inl (KeyError ''annotated''))"
proof -
  let ?wd = "[(''sparse'', \<lparr>ncols = 2, rows = [[1, 1::real]]\<rparr>), (''dense'', \<lparr>ncols = 2, rows = [[1, 1]]\<rparr>)]"
  let ?zeros = "[(''sparse'', \<lparr>ncols = 2, rows = [[0, 0::real]]\<rparr>), (''dense'', \<lparr>ncols = 2, rows = [[0, 0]]\<rparr>)]"
  let ?I = "\<lparr>ncols = 1, rows = [[0::int]]\<rparr>"
  let ?ops = "\<lambda>l. get_prox_operators (Some ?I) None (Some 1) (Some l)"
  let ?train = "\<lambda>l. train_autoencoder ?I 4 ?wd lr0_optimizer 2 1 None (Some 1) (Some l)"
  have na: "''annotated'' \<notin> set (map fst ?wd)"
    by simp
  have steps: "[0..<nat (int 4 div 2)] = [0, Suc 0]"
    by (simp add: upt_rec [of _ "numeral _"] upt_rec [of _ "Suc _"] numeral_2_eq_2)
  have val: "(\<forall>k \<in> set (map fst ?wd). k \<in> dom (?ops l))
        \<and> (0::int) < 2 \<and> (\<forall>step \<in> set [0..<nat (int 4 div 2)]. lr0_optimizer 0 step \<noteq> None)" for l
    by (simp add: dom_get_prox_operators lr0_optimizer_def)
  have ne: "(0::int) < 1"
    by simp
  note inst = train_autoencoder_without_annotated_block [where n_inact = 0 and epoch = 0
      and printed = "[]" and I = ?I and n_obs = 4 and upd = lr0_optimizer and batch_size = 2
      and ?lambda1.0 = None and ?lambda2.0 = "Some 1" and ?lambda3.0 = "Some 1", OF na ne]
  from inst [THEN conjunct2, THEN conjunct2, THEN mp, OF val [of 1]]
  obtain line where line: "?train 1 = (batch_events 0 [0..<nat (int 4 div 2)] @ [EpochLossLine 0, line],
                 Inl (KeyError ''annotated''))"
    by blast
  have rs1: "run_steps_nf lr0_optimizer (?ops 1) 0 [0..<nat (int 4 div 2)] ([], ?wd, False)
              = ([BatchDrawn 0 0, BatchLossLine 0 0, BatchDrawn 0 (Suc 0)], Inr (?zeros, False))"
    unfolding steps
    by (simp add: example_optimizer_step example_step_first example_step_second Let_def
        del: apply_prox_ops.simps)
  have dg1: "epoch_diagnostics_nf (n_inact_genes_of ?I) 0 (?zeros, False)
              ([BatchDrawn 0 0, BatchLossLine 0 0, BatchDrawn 0 (Suc 0)] @ [EpochLossLine 0])
            = ([BatchDrawn 0 0, BatchLossLine 0 0, BatchDrawn 0 (Suc 0), EpochLossLine 0, TermsLine 0 4],
               Inl (KeyError ''annotated''))"
    by (simp add: epoch_diagnostics_nf_def epoch_diagnostics_def example_inactive_terms TERMS_KEYS_def)
  have bs: "(2::int) \<noteq> 0"
    by simp
  have ep1: "run_epochs_nf lr0_optimizer (?ops 1) (n_inact_genes_of ?I) 4 2 [0] ([], ?wd, False)
          = ([BatchDrawn 0 0, BatchLossLine 0 0, BatchDrawn 0 (Suc 0), EpochLossLine 0, TermsLine 0 4],
             Inl (KeyError ''annotated''))"
    by (rule run_epochs_nf_diagnostics_fail [OF bs rs1 dg1])
  have rs0: "run_steps_nf lr0_optimizer (?ops 0) 0 [0..<nat (int 4 div 2)] ([], ?wd, False)
              = ([BatchDrawn 0 0, BatchLossLine 0 0, BatchDrawn 0 (Suc 0)], Inr (?wd, True))"
    unfolding steps
    by (simp add: example_optimizer_step example_step_zero_threshold Let_def
        del: apply_prox_ops.simps)
  have dg0: "epoch_diagnostics_nf (n_inact_genes_of ?I) 0 (?wd, True)
              ([BatchDrawn 0 0, BatchLossLine 0 0, BatchDrawn 0 (Suc 0)] @ [EpochLossLine 0])
            = ([BatchDrawn 0 0, BatchLossLine 0 0, BatchDrawn 0 (Suc 0), EpochLossLine 0,
                TermsLineNonFinite 0],
               Inl (KeyError ''annotated''))"
    by (simp add: epoch_diagnostics_nf_def TERMS_KEYS_def)
  have ep0: "run_epochs_nf lr0_optimizer (?ops 0) (n_inact_genes_of ?I) 4 2 [0] ([], ?wd, False)
          = ([BatchDrawn 0 0, BatchLossLine 0 0, BatchDrawn 0 (Suc 0), EpochLossLine 0,
              TermsLineNonFinite 0],
             Inl (KeyError ''annotated''))"
    by (rule run_epochs_nf_diagnostics_fail [OF bs rs0 dg0])
  have tr: "?train l = finite_view (run_epochs_nf lr0_optimizer (?ops l) (n_inact_genes_of ?I) 4 2 [0]
                          ([], ?wd, False))" for l
    by (simp add: train_autoencoder_def run_epochs_def Let_def dom_get_prox_operators
        del: run_epochs_nf.simps)
  have t1: "?train 1 = ([BatchDrawn 0 0, BatchLossLine 0 0, BatchDrawn 0 (Suc 0), EpochLossLine 0,
                          TermsLine 0 4], Inl (KeyError ''annotated''))"
    unfolding tr ep1 by (simp add: finite_view_def)
  have t0: "?train 0 = ([BatchDrawn 0 0, BatchLossLine 0 0, BatchDrawn 0 (Suc 0), EpochLossLine 0,
                          TermsLineNonFinite 0], Inl (KeyError ''annotated''))"
    unfolding tr ep0 by (simp add: finite_view_def)
  show ?thesis
    using init_sparse_dense_example na line t1 t0 by simp
qed

end
